theory Spec2Isabelle
  imports Main
begin

section \<open>Python strings\<close>

text \<open>
  Command-line text is modelled as \<^typ>\<open>string\<close>. \<open>str_split c s\<close> is Python's
  \<^verbatim>\<open>s.split(c)\<close> for a one-character separator: every occurrence of the separator
  cuts, so two separators in a row (and an empty input) give an empty piece.
\<close>

fun str_split :: "char \<Rightarrow> string \<Rightarrow> string list" where
  "str_split c [] = [[]]"
| "str_split c (x # xs) =
     (if x = c then [] # str_split c xs
      else (case str_split c xs of
              [] \<Rightarrow> [[x]]
            | piece # pieces \<Rightarrow> (x # piece) # pieces))"

text \<open>\<open>str_join sep xs\<close> is \<^verbatim>\<open>sep.join(xs)\<close>.\<close>

fun str_join :: "string \<Rightarrow> string list \<Rightarrow> string" where
  "str_join sep [] = []"
| "str_join sep [x] = x"
| "str_join sep (x # y # ys) = x @ sep @ str_join sep (y # ys)"

text \<open>\<open>startswith p s\<close> is \<^verbatim>\<open>s.startswith(p)\<close>; \<open>str_contains p s\<close> is \<^verbatim>\<open>p in s\<close>.\<close>

fun startswith :: "string \<Rightarrow> string \<Rightarrow> bool" where
  "startswith [] s = True"
| "startswith (p # ps) [] = False"
| "startswith (p # ps) (x # xs) = (p = x \<and> startswith ps xs)"

fun str_contains :: "string \<Rightarrow> string \<Rightarrow> bool" where
  "str_contains p [] = (p = [])"
| "str_contains p (x # xs) = (startswith p (x # xs) \<or> str_contains p xs)"

text \<open>
  \<open>str_of_nat n\<close> is \<^verbatim>\<open>str(n)\<close> (also \<^verbatim>\<open>'%d' % n\<close>) and \<open>hex_of_nat n\<close> is
  \<^verbatim>\<open>'%x' % n\<close>, for a non-negative integer.
\<close>

definition digit_char :: "nat \<Rightarrow> char" where
  "digit_char d = ''0123456789abcdef'' ! (d mod 16)"

function str_of_nat :: "nat \<Rightarrow> string" where
  "str_of_nat n = (if n < 10 then [digit_char n] else str_of_nat (n div 10) @ [digit_char (n mod 10)])"
  by pat_completeness auto
termination
  by (relation "measure (\<lambda>n. n)") auto

function hex_of_nat :: "nat \<Rightarrow> string" where
  "hex_of_nat n = (if n < 16 then [digit_char n] else hex_of_nat (n div 16) @ [digit_char (n mod 16)])"
  by pat_completeness auto
termination
  by (relation "measure (\<lambda>n. n)") auto

section \<open>The \<^verbatim>\<open>ipaddress\<close> objects the runner handles\<close>

text \<open>
  An address object holds its value as an integer (below \<open>2 ^ 32\<close> for IPv4, below
  \<open>2 ^ 128\<close> for IPv6); a network object holds its network address and its prefix
  length. The runner reads three attributes of them: \<^verbatim>\<open>version\<close>,
  \<^verbatim>\<open>is_link_local\<close> and \<^verbatim>\<open>compressed\<close>.
\<close>

datatype ip_address = IPv4Address nat | IPv6Address nat

datatype ip_network = IPv4Network nat nat | IPv6Network nat nat

fun address_version :: "ip_address \<Rightarrow> nat" where
  "address_version (IPv4Address n) = 4"
| "address_version (IPv6Address n) = 6"

fun network_version :: "ip_network \<Rightarrow> nat" where
  "network_version (IPv4Network n p) = 4"
| "network_version (IPv6Network n p) = 6"

text \<open>
  \<^verbatim>\<open>is_link_local\<close>: membership in \<^verbatim>\<open>169.254.0.0/16\<close> (IPv4) or
  \<^verbatim>\<open>fe80::/10\<close> (IPv6), that is, equal leading bits.
\<close>

fun is_link_local :: "ip_address \<Rightarrow> bool" where
  "is_link_local (IPv4Address n) = (n div 2 ^ 16 = 43518)"
| "is_link_local (IPv6Address n) = (n div 2 ^ 118 = 1018)"

text \<open>The dotted quad of an IPv4 value: the four bytes, most significant first.\<close>

definition ipv4_string :: "nat \<Rightarrow> string" where
  "ipv4_string n =
     str_join ''.'' (map (\<lambda>k. str_of_nat (n div 256 ^ k mod 256)) [3, 2, 1, 0])"

text \<open>
  The compressed form of an IPv6 value: eight groups of sixteen bits in lower-case
  hexadecimal without leading zeros, the leftmost longest run of at least two zero
  groups replaced by \<^verbatim>\<open>::\<close>. \<open>best_run\<close> is the scan of
  \<^verbatim>\<open>_compress_hextets\<close>: it returns the start and the length of the leftmost
  longest run of \<^verbatim>\<open>'0'\<close> entries (length 0 when there is none).
\<close>

definition hextets :: "nat \<Rightarrow> string list" where
  "hextets n = map (\<lambda>k. hex_of_nat (n div 65536 ^ k mod 65536)) [7, 6, 5, 4, 3, 2, 1, 0]"

fun best_run :: "string list \<Rightarrow> nat \<Rightarrow> nat \<Rightarrow> nat \<Rightarrow> nat \<Rightarrow> nat \<Rightarrow> nat \<times> nat" where
  "best_run [] index start len best_start best_len = (best_start, best_len)"
| "best_run (h # hs) index start len best_start best_len =
     (if h = ''0'' then
        (let len' = len + 1;
             start' = (if len = 0 then index else start)
         in if len' > best_len
            then best_run hs (index + 1) start' len' start' len'
            else best_run hs (index + 1) start' len' best_start best_len)
      else best_run hs (index + 1) 0 0 best_start best_len)"

definition compress_hextets :: "string list \<Rightarrow> string list" where
  "compress_hextets hs =
     (case best_run hs 0 0 0 0 0 of (best_start, best_len) \<Rightarrow>
        if best_len > 1 then
          (let best_end = best_start + best_len;
               hs1 = (if best_end = length hs then hs @ [''''] else hs);
               hs2 = take best_start hs1 @ [''''] @ drop best_end hs1
           in if best_start = 0 then [''''] @ hs2 else hs2)
        else hs)"

definition ipv6_string :: "nat \<Rightarrow> string" where
  "ipv6_string n = str_join '':'' (compress_hextets (hextets n))"

fun address_compressed :: "ip_address \<Rightarrow> string" where
  "address_compressed (IPv4Address n) = ipv4_string n"
| "address_compressed (IPv6Address n) = ipv6_string n"

fun network_compressed :: "ip_network \<Rightarrow> string" where
  "network_compressed (IPv4Network n p) = ipv4_string n @ ''/'' @ str_of_nat p"
| "network_compressed (IPv6Network n p) = ipv6_string n @ ''/'' @ str_of_nat p"

section \<open>Decoding the engine's diagnostics\<close>

text \<open>
  \<^verbatim>\<open>str(nmap_proc.stderr, 'utf-8')\<close> decodes the captured bytes strictly: a byte
  sequence that is not well-formed UTF-8 raises \<^verbatim>\<open>UnicodeDecodeError\<close>. Bytes are
  numbers below 256; the decoded text is the list of its code points. \<open>None\<close> is
  the raise.
\<close>

definition continuation :: "nat \<Rightarrow> bool" where
  "continuation b = (128 \<le> b \<and> b \<le> 191)"

fun utf8_decode :: "nat list \<Rightarrow> nat list option" where
  "utf8_decode [] = Some []"
| "utf8_decode (b # bs) =
     (if b < 128 then map_option ((#) b) (utf8_decode bs)
      else if 194 \<le> b \<and> b \<le> 223 then
        (case bs of
           c1 # r \<Rightarrow>
             if continuation c1
             then map_option ((#) ((b - 192) * 64 + (c1 - 128))) (utf8_decode r)
             else None
         | _ \<Rightarrow> None)
      else if 224 \<le> b \<and> b \<le> 239 then
        (case bs of
           c1 # c2 # r \<Rightarrow>
             if (if b = 224 then 160 else 128) \<le> c1 \<and> c1 \<le> (if b = 237 then 159 else 191)
                \<and> continuation c2
             then map_option ((#) ((b - 224) * 4096 + (c1 - 128) * 64 + (c2 - 128)))
                    (utf8_decode r)
             else None
         | _ \<Rightarrow> None)
      else if 240 \<le> b \<and> b \<le> 244 then
        (case bs of
           c1 # c2 # c3 # r \<Rightarrow>
             if (if b = 240 then 144 else 128) \<le> c1 \<and> c1 \<le> (if b = 244 then 143 else 191)
                \<and> continuation c2 \<and> continuation c3
             then map_option
                    ((#) ((b - 240) * 262144 + (c1 - 128) * 4096 + (c2 - 128) * 64 + (c3 - 128)))
                    (utf8_decode r)
             else None
         | _ \<Rightarrow> None)
      else None)"

section \<open>Scan results, errors and the world the runner acts on\<close>

datatype NmapScanTypes =
    ARP_DISCOVERY
  | IPV6_LINK_LOCAL_DISCOVERY
  | IP_PROTOCOL_DETECTION
  | PORT_SCAN
  | SERVICE_DISCOVERY
  | ND_DISCOVERY

text \<open>
  The \<^verbatim>\<open>target\<close> argument of \<^verbatim>\<open>run_scan\<close> is \<^verbatim>\<open>None\<close>, an address object
  (in-depth scans) or a network object (discovery and protocol scans); the model
  passes a \<open>target option\<close>.
\<close>

datatype target = Address ip_address | Network ip_network

fun compressed :: "target \<Rightarrow> string" where
  "compressed (Address a) = address_compressed a"
| "compressed (Network n) = network_compressed n"

text \<open>
  \<open>to_ip_network t\<close> stands for \<^verbatim>\<open>ipaddress.ip_network(target.compressed)\<close>. The
  library parses the text it has just printed: for an address object it yields the
  network of that single address, with the full-length prefix; for a network object it
  yields an equal network. The model takes this round trip through the text as given
  and works on the objects.
\<close>

fun to_ip_network :: "target \<Rightarrow> ip_network" where
  "to_ip_network (Address (IPv4Address n)) = IPv4Network n 32"
| "to_ip_network (Address (IPv6Address n)) = IPv6Network n 128"
| "to_ip_network (Network n) = n"

text \<open>
  The exceptions that can leave the runner. \<open>NmapFailure\<close> is \<^verbatim>\<open>ndr.NmapFailure\<close>
  with its two arguments, the exit status and the decoded diagnostics. \<open>TypeError\<close>
  is what \<^verbatim>\<open>"-e " + interface\<close> raises when \<^verbatim>\<open>interface\<close> is
  \<^verbatim>\<open>None\<close>. \<open>UnicodeDecodeError\<close> is raised by either of the two strict
  decodings, of the diagnostics at line 90 and of the report at line 94.
  \<open>OutputParseError\<close> is any exception of the collaborator's
  \<^verbatim>\<open>parse_nmap_xml\<close>. \<open>FileExistsError\<close> is \<^verbatim>\<open>mkstemp\<close> running out of
  candidate names, \<open>FileNotFoundError\<close> is \<^verbatim>\<open>open\<close> on a missing file.
\<close>

datatype error =
    NmapFailure int "nat list"
  | UnicodeDecodeError
  | TypeError
  | OutputParseError
  | FileExistsError
  | FileNotFoundError

text \<open>
  Modelled from the spec: \<^verbatim>\<open>ndr.NmapScan\<close> is not among the sources. The runner
  sets \<^verbatim>\<open>scan_type\<close> and \<^verbatim>\<open>scan_target\<close> on it (both unset on a fresh
  object), reads \<^verbatim>\<open>full_ip_list()\<close>, the discovered addresses in the order the
  parser found them, and calls \<^verbatim>\<open>sign_report()\<close> and \<^verbatim>\<open>load_into_queue()\<close>:
  the first marks the scan as signed, the second appends it to the downstream queue,
  and neither raises.
\<close>

record NmapScan =
  scan_type :: "NmapScanTypes option"
  scan_target :: "string option"
  full_ip_list :: "ip_address list"
  is_signed :: bool

text \<open>What one run of the engine does: its exit status, the bytes it wrote to
  standard error, and the bytes it wrote to its \<^verbatim>\<open>-oX\<close> file.\<close>

record nmap_outcome =
  returncode :: int
  stderr :: "nat list"
  xml_report :: "nat list"

text \<open>
  The world: the engine (what the \<open>k\<close>-th invocation does, given its argument list),
  the strict decoder of the locale's preferred encoding, which \<^verbatim>\<open>open(..., 'r')\<close>
  uses (\<open>None\<close> when it raises \<^verbatim>\<open>UnicodeDecodeError\<close>), the collaborator's parser,
  which gets the decoded text as a list of code points (\<open>None\<close> when it raises), the
  candidate names the temporary-file generator will draw next, the files that exist
  with their contents as bytes, the argument lists of the engine invocations so far,
  and the downstream queue of reports.
\<close>

record world =
  nmap :: "nat \<Rightarrow> string list \<Rightarrow> nmap_outcome"
  locale_decode :: "nat list \<Rightarrow> nat list option"
  parse_nmap_xml :: "nat list \<Rightarrow> ip_address list option"
  tmp_names :: "string list"
  files :: "string \<Rightarrow> nat list option"
  invocations :: "string list list"
  queue :: "NmapScan list"

text \<open>
  \<^verbatim>\<open>tempfile.mkstemp()\<close>: the first candidate name that no file has is created
  empty and returned; the names tried are used up.
\<close>

definition mkstemp :: "world \<Rightarrow> (error + string) \<times> world" where
  "mkstemp w =
     (case dropWhile (\<lambda>n. files w n \<noteq> None) (tmp_names w) of
        [] \<Rightarrow> (Inl FileExistsError, w\<lparr>tmp_names := []\<rparr>)
      | n # rest \<Rightarrow> (Inr n, w\<lparr>tmp_names := rest, files := (files w)(n \<mapsto> [])\<rparr>))"

text \<open>The file the engine writes its report to: the argument after the first
  \<^verbatim>\<open>-oX\<close>.\<close>

fun oX_path :: "string list \<Rightarrow> string option" where
  "oX_path (a # b # rest) = (if a = ''-oX'' then Some b else oX_path (b # rest))"
| "oX_path _ = None"

text \<open>
  \<^verbatim>\<open>subprocess.run(args=nmap_cmd, ..., check=False)\<close>: the invocation is recorded,
  the engine runs and writes its report, and the outcome comes back whatever the exit
  status. The engine is taken to be installed, so that the call itself does not fail;
  the logger's calls change nothing the statements below speak of and are left out.
\<close>

definition subprocess_run :: "string list \<Rightarrow> world \<Rightarrow> nmap_outcome \<times> world" where
  "subprocess_run args w =
     (let proc = nmap w (length (invocations w)) args;
          w1 = w\<lparr>invocations := invocations w @ [args]\<rparr>
      in (proc, (case oX_path args of
                   None \<Rightarrow> w1
                 | Some p \<Rightarrow> w1\<lparr>files := (files w1)(p \<mapsto> xml_report proc)\<rparr>)))"

text \<open>
  Lines 93 and 94, \<^verbatim>\<open>open(xml_logfile[1], 'r')\<close> and \<^verbatim>\<open>read()\<close>: the file is read in
  text mode. Its bytes are decoded strictly with the locale's encoding, and in the
  decoded text every \<^verbatim>\<open>\r\n\<close> and every remaining \<^verbatim>\<open>\r\<close> becomes \<^verbatim>\<open>\n\<close>
  (code points 13 and 10).
\<close>

fun universal_newlines :: "nat list \<Rightarrow> nat list" where
  "universal_newlines [] = []"
| "universal_newlines (c # rest) =
     (if c = 13 then
        (case rest of
           [] \<Rightarrow> [10]
         | d # rest' \<Rightarrow>
             if d = 10 then 10 # universal_newlines rest' else 10 # universal_newlines rest)
      else c # universal_newlines rest)"

definition read_text :: "world \<Rightarrow> string \<Rightarrow> error + nat list" where
  "read_text w path =
     (case files w path of
        None \<Rightarrow> Inl FileNotFoundError
      | Some content \<Rightarrow>
          (case locale_decode w content of
             None \<Rightarrow> Inl UnicodeDecodeError
           | Some text \<Rightarrow> Inr (universal_newlines text)))"

section \<open>\<^verbatim>\<open>NmapRunner\<close>\<close>

text \<open>Lines 74 to 81 of \<^verbatim>\<open>run_scan\<close>: the argument list for the engine.\<close>

definition nmap_cmd :: "string \<Rightarrow> string \<Rightarrow> target option \<Rightarrow> string list" where
  "nmap_cmd options xml_logfile target =
     [''nmap''] @ str_split CHR '' '' options @ [''-oX'', xml_logfile]
       @ (case target of None \<Rightarrow> [] | Some t \<Rightarrow> [compressed t])"

definition run_scan ::
  "NmapScanTypes \<Rightarrow> string \<Rightarrow> target option \<Rightarrow> world \<Rightarrow> (error + NmapScan) \<times> world" where
  "run_scan st options target w =
     (case mkstemp w of
        (Inl e, w1) \<Rightarrow> (Inl e, w1)
      | (Inr xml_logfile, w1) \<Rightarrow>
          (case subprocess_run (nmap_cmd options xml_logfile target) w1 of
             (nmap_proc, w2) \<Rightarrow>
               if returncode nmap_proc \<noteq> 0 then
                 (case utf8_decode (stderr nmap_proc) of
                    None \<Rightarrow> (Inl UnicodeDecodeError, w2)
                  | Some text \<Rightarrow> (Inl (NmapFailure (returncode nmap_proc) text), w2))
               else
                 (case read_text w2 xml_logfile of
                    Inl e \<Rightarrow> (Inl e, w2)
                  | Inr xml_output \<Rightarrow>
                      (let w3 = w2\<lparr>files := (files w2)(xml_logfile := None)\<rparr>
                       in case parse_nmap_xml w3 xml_output of
                            None \<Rightarrow> (Inl OutputParseError, w3)
                          | Some found \<Rightarrow>
                              (Inr \<lparr>scan_type = Some st,
                                    scan_target =
                                      (case target of
                                         None \<Rightarrow> None
                                       | Some t \<Rightarrow> Some (network_compressed (to_ip_network t))),
                                    full_ip_list = found,
                                    is_signed = False\<rparr>, w3)))))"

definition arp_host_discovery_scan :: "ip_network \<Rightarrow> world \<Rightarrow> (error + NmapScan) \<times> world" where
  "arp_host_discovery_scan network = run_scan ARP_DISCOVERY ''-sn -R -PR'' (Some (Network network))"

definition nd_host_discovery_scan :: "ip_network \<Rightarrow> world \<Rightarrow> (error + NmapScan) \<times> world" where
  "nd_host_discovery_scan network = run_scan ND_DISCOVERY ''-6 -R -sn -PR'' (Some (Network network))"

definition v6_link_local_scan :: "string \<Rightarrow> world \<Rightarrow> (error + NmapScan) \<times> world" where
  "v6_link_local_scan interface =
     run_scan IPV6_LINK_LOCAL_DISCOVERY
       (''-6 -R -sn -e '' @ interface
          @ '' --script=targets-ipv6-multicast-* --script-args=newtargets'') None"

definition basic_host_scan :: "ip_network \<Rightarrow> world \<Rightarrow> (error + NmapScan) \<times> world" where
  "basic_host_scan network = run_scan PORT_SCAN ''-sS'' (Some (Network network))"

definition protocol_scan :: "ip_network \<Rightarrow> world \<Rightarrow> (error + NmapScan) \<times> world" where
  "protocol_scan network =
     (let nmap_flags = ''-sO'';
          nmap_flags = (if network_version network = 6 then ''-6'' @ nmap_flags else nmap_flags)
      in run_scan IP_PROTOCOL_DETECTION nmap_flags (Some (Network network)))"

definition indepth_host_scan ::
  "ip_address \<Rightarrow> string option \<Rightarrow> world \<Rightarrow> (error + NmapScan) \<times> world" where
  "indepth_host_scan address interface w =
     (let base_nmap_options = ''-sS -A -T4'';
          options = base_nmap_options;
          options = (if address_version address = 6 then ''-6 '' @ options else options)
      in if is_link_local address then
           (case interface of
              None \<Rightarrow> (Inl TypeError, w)
            | Some i \<Rightarrow>
                run_scan SERVICE_DISCOVERY (''-e '' @ i @ '' '' @ options) (Some (Address address)) w)
         else run_scan SERVICE_DISCOVERY options (Some (Address address)) w)"

text \<open>
  \<^verbatim>\<open>process_and_send_scan\<close>: the hosts of the scan, each paired with the given
  interface; the scan is signed, then loaded into the queue.
\<close>

definition process_and_send_scan ::
  "NmapScan \<Rightarrow> string option \<Rightarrow> world \<Rightarrow> (ip_address \<times> string option) list \<times> world" where
  "process_and_send_scan scan interface w =
     (let hosts_in_scan = map (\<lambda>found_ip. (found_ip, interface)) (full_ip_list scan);
          scan = scan\<lparr>is_signed := True\<rparr>
      in (hosts_in_scan, w\<lparr>queue := queue w @ [scan]\<rparr>))"

text \<open>
  \<^verbatim>\<open>NmapConfig\<close>, and the four loops of \<^verbatim>\<open>run_network_scans\<close>. Each loop
  takes the items still to visit; the two discovery loops also take the list
  \<^verbatim>\<open>discovered_hosts\<close> built so far and return it extended. An exception ends a
  loop with the world as it was when raised.
\<close>

record NmapConfig =
  scan_interfaces :: "string list"
  networks_to_scan :: "ip_network list"
  blacklisted_hosts :: "ip_address list"

fun link_local_discovery ::
  "string list \<Rightarrow> (ip_address \<times> string option) list \<Rightarrow> world
     \<Rightarrow> (error + (ip_address \<times> string option) list) \<times> world" where
  "link_local_discovery [] discovered_hosts w = (Inr discovered_hosts, w)"
| "link_local_discovery (interface # rest) discovered_hosts w =
     (case v6_link_local_scan interface w of
        (Inl e, w1) \<Rightarrow> (Inl e, w1)
      | (Inr ipv6_ll_scan, w1) \<Rightarrow>
          (case process_and_send_scan ipv6_ll_scan (Some interface) w1 of
             (hosts_in_scan, w2) \<Rightarrow>
               link_local_discovery rest (discovered_hosts @ hosts_in_scan) w2))"

fun network_discover ::
  "ip_network list \<Rightarrow> (ip_address \<times> string option) list \<Rightarrow> world
     \<Rightarrow> (error + (ip_address \<times> string option) list) \<times> world" where
  "network_discover [] discovered_hosts w = (Inr discovered_hosts, w)"
| "network_discover (network # rest) discovered_hosts w =
     (case (if network_version network = 4
            then arp_host_discovery_scan network w
            else nd_host_discovery_scan network w) of
        (Inl e, w1) \<Rightarrow> (Inl e, w1)
      | (Inr discovery, w1) \<Rightarrow>
          (case process_and_send_scan discovery None w1 of
             (hosts_in_scan, w2) \<Rightarrow>
               network_discover rest (discovered_hosts @ hosts_in_scan) w2))"

fun protocol_discovery :: "ip_network list \<Rightarrow> world \<Rightarrow> (error + unit) \<times> world" where
  "protocol_discovery [] w = (Inr (), w)"
| "protocol_discovery (network # rest) w =
     (case protocol_scan network w of
        (Inl e, w1) \<Rightarrow> (Inl e, w1)
      | (Inr scan, w1) \<Rightarrow>
          (case process_and_send_scan scan None w1 of
             (hosts_in_scan, w2) \<Rightarrow> protocol_discovery rest w2))"

fun host_scanning ::
  "(ip_address \<times> string option) list \<Rightarrow> world \<Rightarrow> (error + unit) \<times> world" where
  "host_scanning [] w = (Inr (), w)"
| "host_scanning (host_tuple # rest) w =
     (case indepth_host_scan (fst host_tuple) (snd host_tuple) w of
        (Inl e, w1) \<Rightarrow> (Inl e, w1)
      | (Inr host_scan, w1) \<Rightarrow>
          (case process_and_send_scan host_scan None w1 of
             (hosts_in_scan, w2) \<Rightarrow> host_scanning rest w2))"

definition run_network_scans :: "NmapConfig \<Rightarrow> world \<Rightarrow> (error + unit) \<times> world" where
  "run_network_scans nmap_config w =
     (case link_local_discovery (scan_interfaces nmap_config) [] w of
        (Inl e, w1) \<Rightarrow> (Inl e, w1)
      | (Inr discovered_hosts, w1) \<Rightarrow>
          (case network_discover (networks_to_scan nmap_config) discovered_hosts w1 of
             (Inl e, w2) \<Rightarrow> (Inl e, w2)
           | (Inr discovered_hosts, w2) \<Rightarrow>
               (case protocol_discovery (networks_to_scan nmap_config) w2 of
                  (Inl e, w3) \<Rightarrow> (Inl e, w3)
                | (Inr u, w3) \<Rightarrow> host_scanning discovered_hosts w3)))"

section \<open>\<^verbatim>\<open>NmapConfig.__init__\<close>\<close>

text \<open>
  The configuration provider reports the managed interfaces, each with its name and
  the addresses currently bound to it. The provider's address objects and their
  \<^verbatim>\<open>ip_network()\<close> method are not among the sources: the address type is a
  parameter, and so is the method.
\<close>

record 'a interface =
  name :: string
  current_ip_addresses :: "'a list"

fun select_interfaces ::
  "('a \<Rightarrow> ip_network) \<Rightarrow> 'a interface list \<Rightarrow> NmapConfig \<Rightarrow> NmapConfig" where
  "select_interfaces addr_ip_network [] self = self"
| "select_interfaces addr_ip_network (interface # rest) self =
     (if \<not> str_contains ''lan'' (name interface)
      then select_interfaces addr_ip_network rest self
      else select_interfaces addr_ip_network rest
             (self\<lparr>scan_interfaces := scan_interfaces self @ [name interface],
                   networks_to_scan :=
                     networks_to_scan self
                       @ map addr_ip_network (current_ip_addresses interface)\<rparr>))"

definition NmapConfig_init :: "('a \<Rightarrow> ip_network) \<Rightarrow> 'a interface list \<Rightarrow> NmapConfig" where
  "NmapConfig_init addr_ip_network interfaces =
     select_interfaces addr_ip_network interfaces
       \<lparr>scan_interfaces = [], networks_to_scan = [], blacklisted_hosts = []\<rparr>"

section \<open>Notions the statements use\<close>

text \<open>
  \<open>exit_codes engine k log\<close>: the exit statuses of the invocations \<open>log\<close>, the
  first of which is the \<open>k\<close>-th invocation of the engine overall.
\<close>

fun exit_codes :: "(nat \<Rightarrow> string list \<Rightarrow> nmap_outcome) \<Rightarrow> nat \<Rightarrow> string list list \<Rightarrow> int list" where
  "exit_codes engine k [] = []"
| "exit_codes engine k (args # rest) = returncode (engine k args) # exit_codes engine (Suc k) rest"

text \<open>The exception lines 88 to 90 raise for an outcome with a nonzero exit status.\<close>

definition raised_for :: "nmap_outcome \<Rightarrow> error" where
  "raised_for out =
     (case utf8_decode (stderr out) of
        None \<Rightarrow> UnicodeDecodeError
      | Some text \<Rightarrow> NmapFailure (returncode out) text)"

text \<open>
  How far a sweep has come between two worlds: \<open>progress w w' new scans\<close> says that
  \<open>w'\<close> has the invocations \<open>new\<close> and the queued reports \<open>scans\<close> beyond those
  of \<open>w\<close>, each report signed, with the same engine and parser. \<open>completed\<close> adds
  that every invocation exited with status 0 and left one report; \<open>aborted\<close> says
  that an exception stopped the work, in one of the three ways \<open>abort_shape\<close> lists:
  before an invocation, after an invocation that succeeded but gave no scan
  (\<open>gave_no_scan\<close> lists the exceptions of lines 93 to 99), or on an invocation that
  failed, with the exception lines 88 to 90 raise for its outcome.
\<close>

definition progress :: "world \<Rightarrow> world \<Rightarrow> string list list \<Rightarrow> NmapScan list \<Rightarrow> bool" where
  "progress w w' new scans \<longleftrightarrow>
     nmap w' = nmap w \<and> parse_nmap_xml w' = parse_nmap_xml w
     \<and> invocations w' = invocations w @ new
     \<and> queue w' = queue w @ scans \<and> list_all is_signed scans"

definition completed :: "world \<Rightarrow> world \<Rightarrow> bool" where
  "completed w w' \<longleftrightarrow>
     (\<exists>new scans. progress w w' new scans
        \<and> exit_codes (nmap w) (length (invocations w)) new = replicate (length scans) 0)"

definition gave_no_scan :: "error \<Rightarrow> bool" where
  "gave_no_scan e \<longleftrightarrow> e = FileNotFoundError \<or> e = UnicodeDecodeError \<or> e = OutputParseError"

definition abort_shape ::
  "(nat \<Rightarrow> string list \<Rightarrow> nmap_outcome) \<Rightarrow> nat \<Rightarrow> string list list \<Rightarrow> nat \<Rightarrow> error \<Rightarrow> bool" where
  "abort_shape engine k new n e \<longleftrightarrow>
     exit_codes engine k new = replicate n 0 \<and> (e = TypeError \<or> e = FileExistsError)
   \<or> exit_codes engine k new = replicate n 0 @ [0]
       \<and> gave_no_scan e
   \<or> returncode (engine (k + n) (last new)) \<noteq> 0
       \<and> exit_codes engine k new = replicate n 0 @ [returncode (engine (k + n) (last new))]
       \<and> e = raised_for (engine (k + n) (last new))"

definition aborted :: "world \<Rightarrow> error \<Rightarrow> world \<Rightarrow> bool" where
  "aborted w e w' \<longleftrightarrow>
     (\<exists>new scans. progress w w' new scans
        \<and> abort_shape (nmap w) (length (invocations w)) new (length scans) e)"

section \<open>Example configurations and worlds\<close>

text \<open>
  One interface \<^verbatim>\<open>lan0\<close> and the network \<^verbatim>\<open>10.0.0.0/24\<close>; the engine's
  second invocation (the first of phase 2) exits with status 1 and the diagnostics
  \<^verbatim>\<open>boom\<close>, every other one succeeds and finds no host.
\<close>

definition sweep_config_B :: NmapConfig where
  "sweep_config_B =
     \<lparr>scan_interfaces = [''lan0''],
      networks_to_scan = [IPv4Network 167772160 24],
      blacklisted_hosts = []\<rparr>"

definition world_B :: world where
  "world_B =
     \<lparr>nmap = (\<lambda>k args. if k = 1
                 then \<lparr>returncode = 1, stderr = [98, 111, 111, 109], xml_report = []\<rparr>
                 else \<lparr>returncode = 0, stderr = [], xml_report = map of_char ''<nmaprun/>''\<rparr>),
      locale_decode = utf8_decode,
      parse_nmap_xml = (\<lambda>xml. Some []),
      tmp_names = [''/tmp/tmpa'', ''/tmp/tmpb'', ''/tmp/tmpc''],
      files = (\<lambda>p. None),
      invocations = [],
      queue = []\<rparr>"

text \<open>
  A world where every invocation succeeds and finds no host, and four worlds with
  one candidate file name: in \<open>world_fail\<close> the engine exits with status 1 and the
  diagnostics \<^verbatim>\<open>boom\<close>; in \<open>world_bad_stderr\<close> it exits with status 1 and the
  single byte \<^verbatim>\<open>0xff\<close> as diagnostics; in \<open>world_bad_report\<close> it exits with status
  0 and leaves a truncated report, which the parser rejects; in
  \<open>world_bad_encoding\<close> it exits with status 0 and leaves a report with the byte
  \<^verbatim>\<open>0xff\<close> in it. The locale's encoding is UTF-8 in all of them. \<open>net_10\<close> is
  \<^verbatim>\<open>10.0.0.0/24\<close>.
\<close>

definition world_ok :: world where
  "world_ok =
     \<lparr>nmap = (\<lambda>k args. \<lparr>returncode = 0, stderr = [], xml_report = map of_char ''<nmaprun/>''\<rparr>),
      locale_decode = utf8_decode,
      parse_nmap_xml = (\<lambda>xml. Some []),
      tmp_names = [''/tmp/tmpa'', ''/tmp/tmpb'', ''/tmp/tmpc'', ''/tmp/tmpd''],
      files = (\<lambda>p. None),
      invocations = [],
      queue = []\<rparr>"

definition world_bad_stderr :: world where
  "world_bad_stderr =
     \<lparr>nmap = (\<lambda>k args. \<lparr>returncode = 1, stderr = [255], xml_report = []\<rparr>),
      locale_decode = utf8_decode,
      parse_nmap_xml = (\<lambda>xml. Some []),
      tmp_names = [''/tmp/tmpa''],
      files = (\<lambda>p. None),
      invocations = [],
      queue = []\<rparr>"

definition world_bad_report :: world where
  "world_bad_report =
     \<lparr>nmap = (\<lambda>k args. \<lparr>returncode = 0, stderr = [], xml_report = map of_char ''<nmaprun''\<rparr>),
      locale_decode = utf8_decode,
      parse_nmap_xml = (\<lambda>xml. if xml = map of_char ''<nmaprun/>'' then Some [] else None),
      tmp_names = [''/tmp/tmpa''],
      files = (\<lambda>p. None),
      invocations = [],
      queue = []\<rparr>"

definition world_bad_encoding :: world where
  "world_bad_encoding =
     \<lparr>nmap = (\<lambda>k args. \<lparr>returncode = 0, stderr = [],
                          xml_report = map of_char ''<nmaprun>'' @ [255]
                                       @ map of_char ''</nmaprun>''\<rparr>),
      locale_decode = utf8_decode,
      parse_nmap_xml = (\<lambda>xml. Some []),
      tmp_names = [''/tmp/tmpa''],
      files = (\<lambda>p. None),
      invocations = [],
      queue = []\<rparr>"

definition world_fail :: world where
  "world_fail =
     \<lparr>nmap = (\<lambda>k args. \<lparr>returncode = 1, stderr = [98, 111, 111, 109], xml_report = []\<rparr>),
      locale_decode = utf8_decode,
      parse_nmap_xml = (\<lambda>xml. Some []),
      tmp_names = [''/tmp/tmpa''],
      files = (\<lambda>p. None),
      invocations = [],
      queue = []\<rparr>"

definition net_10 :: ip_network where
  "net_10 = IPv4Network 167772160 24"

text \<open>
  A configuration whose only network is \<^verbatim>\<open>10.0.0.0/24\<close> and whose blacklist holds
  \<^verbatim>\<open>10.0.0.5\<close>, with a world where the first scan (the ARP discovery) finds exactly
  that host. Then the network \<^verbatim>\<open>2001:db8::/32\<close> and the two link-local addresses
  \<^verbatim>\<open>fe80::1\<close> and \<^verbatim>\<open>169.254.1.1\<close>.
\<close>

definition sweep_config_C :: NmapConfig where
  "sweep_config_C =
     \<lparr>scan_interfaces = [],
      networks_to_scan = [net_10],
      blacklisted_hosts = [IPv4Address 167772165]\<rparr>"

definition world_C :: world where
  "world_C =
     \<lparr>nmap = (\<lambda>k args. \<lparr>returncode = 0, stderr = [],
                          xml_report = map of_char (if k = 0 then ''<host 10.0.0.5/>'' else ''<nmaprun/>'')\<rparr>),
      locale_decode = utf8_decode,
      parse_nmap_xml =
        (\<lambda>xml. if xml = map of_char ''<host 10.0.0.5/>'' then Some [IPv4Address 167772165]
               else Some []),
      tmp_names = [''/tmp/tmpa'', ''/tmp/tmpb'', ''/tmp/tmpc'', ''/tmp/tmpd''],
      files = (\<lambda>p. None),
      invocations = [],
      queue = []\<rparr>"

definition net_2001_db8 :: ip_network where
  "net_2001_db8 = IPv6Network 42540766411282592856903984951653826560 32"

definition addr_fe80_1 :: ip_address where
  "addr_fe80_1 = IPv6Address 338288524927261089654018896841347694593"

definition addr_169_254_1_1 :: ip_address where
  "addr_169_254_1_1 = IPv4Address 2851995905"

text \<open>
  A sweep that finds a host twice. One interface \<^verbatim>\<open>lan0\<close>, and the network
  \<^verbatim>\<open>10.0.0.0/24\<close> listed twice (an interface with two addresses in one subnet
  gives that). The link-local scan finds \<^verbatim>\<open>fe80::1\<close>, each ARP discovery finds
  \<^verbatim>\<open>10.0.0.5\<close>, and no other scan finds anything. \<open>world_A1\<close>, \<open>world_A2\<close> and
  \<open>world_A3\<close> are the worlds after phases 1, 2 and 3.
\<close>

definition addr_10_0_0_5 :: ip_address where
  "addr_10_0_0_5 = IPv4Address 167772165"

definition sweep_config_A :: NmapConfig where
  "sweep_config_A =
     \<lparr>scan_interfaces = [''lan0''],
      networks_to_scan = [net_10, net_10],
      blacklisted_hosts = []\<rparr>"

definition world_A :: world where
  "world_A =
     \<lparr>nmap = (\<lambda>k args. \<lparr>returncode = 0, stderr = [],
                          xml_report = map of_char
                                         (if k = 0 then ''<host fe80::1/>''
                                          else if k = 1 \<or> k = 2 then ''<host 10.0.0.5/>''
                                          else ''<nmaprun/>'')\<rparr>),
      locale_decode = utf8_decode,
      parse_nmap_xml =
        (\<lambda>xml. if xml = map of_char ''<host fe80::1/>'' then Some [addr_fe80_1]
               else if xml = map of_char ''<host 10.0.0.5/>'' then Some [addr_10_0_0_5]
               else Some []),
      tmp_names = [''/tmp/tmpa'', ''/tmp/tmpb'', ''/tmp/tmpc'', ''/tmp/tmpd'',
                   ''/tmp/tmpe'', ''/tmp/tmpf'', ''/tmp/tmpg'', ''/tmp/tmph''],
      files = (\<lambda>p. None),
      invocations = [],
      queue = []\<rparr>"

definition world_A1 :: world where
  "world_A1 = snd (link_local_discovery (scan_interfaces sweep_config_A) [] world_A)"

definition world_A2 :: world where
  "world_A2 = snd (network_discover (networks_to_scan sweep_config_A)
                     [(addr_fe80_1, Some ''lan0'')] world_A1)"

definition world_A3 :: world where
  "world_A3 = snd (protocol_discovery (networks_to_scan sweep_config_A) world_A2)"

section \<open>Facts about the string functions\<close>

lemma str_split_nonempty: "str_split c s \<noteq> []"
  by (induction s) (auto split: list.splits)

section \<open>One scan\<close>

lemma exit_codes_append:
  "exit_codes engine k (xs @ ys) = exit_codes engine k xs @ exit_codes engine (k + length xs) ys"
  by (induction xs arbitrary: k) auto

lemma mkstemp_Inr:
  assumes "mkstemp w = (Inr p, w1)"
  shows "files w p = None" and "files w1 = (files w)(p \<mapsto> [])"
    and "invocations w1 = invocations w" and "queue w1 = queue w"
    and "nmap w1 = nmap w" and "parse_nmap_xml w1 = parse_nmap_xml w"
    and "locale_decode w1 = locale_decode w"
proof -
  from assms obtain rest where d: "dropWhile (\<lambda>n. files w n \<noteq> None) (tmp_names w) = p # rest"
    and w1: "w1 = w\<lparr>tmp_names := rest, files := (files w)(p \<mapsto> [])\<rparr>"
    by (auto simp: mkstemp_def split: list.splits)
  from d have "\<not> (files w (hd (dropWhile (\<lambda>n. files w n \<noteq> None) (tmp_names w))) \<noteq> None)"
    using hd_dropWhile [of "\<lambda>n. files w n \<noteq> None" "tmp_names w"] by simp
  with d show "files w p = None" by simp
  from w1 show "files w1 = (files w)(p \<mapsto> [])" "invocations w1 = invocations w" "queue w1 = queue w"
    "nmap w1 = nmap w" "parse_nmap_xml w1 = parse_nmap_xml w"
    "locale_decode w1 = locale_decode w" by simp_all
qed

lemma mkstemp_Inl:
  assumes "mkstemp w = (Inl e, w1)"
  shows "e = FileExistsError" and "files w1 = files w"
    and "invocations w1 = invocations w" and "queue w1 = queue w"
    and "nmap w1 = nmap w" and "parse_nmap_xml w1 = parse_nmap_xml w"
  using assms by (auto simp: mkstemp_def split: list.splits)

lemma subprocess_run_facts:
  assumes "subprocess_run args w = (proc, w2)"
  shows "proc = nmap w (length (invocations w)) args"
    and "invocations w2 = invocations w @ [args]" and "queue w2 = queue w"
    and "nmap w2 = nmap w" and "parse_nmap_xml w2 = parse_nmap_xml w"
    and "locale_decode w2 = locale_decode w"
  using assms by (auto simp: subprocess_run_def Let_def split: option.splits)

lemma run_scan_Inr:
  assumes "run_scan st options target w = (Inr scan, w')"
  shows "\<exists>p w1. mkstemp w = (Inr p, w1) \<and> files w' p = None
           \<and> invocations w' = invocations w @ [nmap_cmd options p target]
           \<and> returncode (nmap w (length (invocations w)) (nmap_cmd options p target)) = 0"
    and "queue w' = queue w" and "nmap w' = nmap w" and "parse_nmap_xml w' = parse_nmap_xml w"
    and "scan_type scan = Some st"
    and "scan_target scan = map_option (\<lambda>t. network_compressed (to_ip_network t)) target"
proof -
  from assms obtain p w1 where m: "mkstemp w = (Inr p, w1)"
    by (auto simp: run_scan_def split: prod.splits sum.splits)
  obtain proc w2 where s: "subprocess_run (nmap_cmd options p target) w1 = (proc, w2)"
    by (cases "subprocess_run (nmap_cmd options p target) w1")
  note mf = mkstemp_Inr [OF m] and sf = subprocess_run_facts [OF s]
  from assms m s have rc: "returncode proc = 0"
    by (auto simp: run_scan_def split: if_splits option.splits)
  from assms m s rc obtain xml found where x: "read_text w2 p = Inr xml"
    and w': "w' = w2\<lparr>files := (files w2)(p := None)\<rparr>"
    and f: "parse_nmap_xml w' xml = Some found"
    and sc: "scan = \<lparr>scan_type = Some st,
                scan_target = (case target of None \<Rightarrow> None | Some t \<Rightarrow> Some (network_compressed (to_ip_network t))),
                full_ip_list = found, is_signed = False\<rparr>"
    by (auto simp: run_scan_def Let_def split: if_splits option.splits sum.splits)
  show "\<exists>p w1. mkstemp w = (Inr p, w1) \<and> files w' p = None
           \<and> invocations w' = invocations w @ [nmap_cmd options p target]
           \<and> returncode (nmap w (length (invocations w)) (nmap_cmd options p target)) = 0"
    using m w' rc mf sf by auto
  show "queue w' = queue w" "nmap w' = nmap w" "parse_nmap_xml w' = parse_nmap_xml w"
    using w' mf sf by simp_all
  show "scan_type scan = Some st" using sc by simp
  show "scan_target scan = map_option (\<lambda>t. network_compressed (to_ip_network t)) target"
    using sc by (cases target) simp_all
qed

lemma read_text_Inl:
  "read_text w path = Inl e \<Longrightarrow> e = FileNotFoundError \<or> e = UnicodeDecodeError"
  by (auto simp: read_text_def split: option.splits)

lemma run_scan_Inl:
  assumes "run_scan st options target w = (Inl e, w')"
  shows "queue w' = queue w \<and> nmap w' = nmap w \<and> parse_nmap_xml w' = parse_nmap_xml w
     \<and> ((e = FileExistsError \<and> invocations w' = invocations w)
       \<or> (\<exists>p. invocations w' = invocations w @ [nmap_cmd options p target]
             \<and> (returncode (nmap w (length (invocations w)) (nmap_cmd options p target)) \<noteq> 0
                  \<and> e = raised_for (nmap w (length (invocations w)) (nmap_cmd options p target))
                \<or> returncode (nmap w (length (invocations w)) (nmap_cmd options p target)) = 0
                  \<and> gave_no_scan e)))"
proof (cases "mkstemp w")
  case (Pair r w1)
  show ?thesis
  proof (cases r)
    case (Inl e1)
    with Pair assms have "e = e1" "w' = w1"
      by (auto simp: run_scan_def)
    with Pair Inl mkstemp_Inl [of w e1 w1] show ?thesis
      by simp
  next
    case (Inr p)
    obtain proc w2 where s: "subprocess_run (nmap_cmd options p target) w1 = (proc, w2)"
      by (cases "subprocess_run (nmap_cmd options p target) w1")
    note mf = mkstemp_Inr [OF Pair [unfolded Inr]] and sf = subprocess_run_facts [OF s]
    from assms Pair Inr s mf sf show ?thesis
      by (auto simp: run_scan_def Let_def raised_for_def gave_no_scan_def
          dest: read_text_Inl split: if_splits option.splits sum.splits)
  qed
qed

section \<open>Sequences of scans\<close>

lemma exit_codes_length: "length (exit_codes engine k log) = length log"
  by (induction log arbitrary: k) auto

lemma completed_refl: "completed w w"
  by (simp add: completed_def progress_def)

lemma progress_trans:
  assumes "progress w w1 new1 scans1" and "progress w1 w2 new2 scans2"
  shows "progress w w2 (new1 @ new2) (scans1 @ scans2)"
  using assms by (simp add: progress_def)

lemma exit_codes_trans:
  assumes "progress w w1 new1 scans1"
  shows "exit_codes (nmap w) (length (invocations w)) (new1 @ new2)
       = exit_codes (nmap w) (length (invocations w)) new1
         @ exit_codes (nmap w1) (length (invocations w1)) new2"
  using assms by (simp add: progress_def exit_codes_append)

lemma completed_trans:
  assumes "completed w w1" and "completed w1 w2"
  shows "completed w w2"
proof -
  from assms(1) obtain new1 scans1 where p1: "progress w w1 new1 scans1"
    and c1: "exit_codes (nmap w) (length (invocations w)) new1 = replicate (length scans1) 0"
    by (auto simp: completed_def)
  from assms(2) obtain new2 scans2 where p2: "progress w1 w2 new2 scans2"
    and c2: "exit_codes (nmap w1) (length (invocations w1)) new2 = replicate (length scans2) 0"
    by (auto simp: completed_def)
  have "exit_codes (nmap w) (length (invocations w)) (new1 @ new2)
      = replicate (length (scans1 @ scans2)) 0"
    by (simp add: exit_codes_trans [OF p1] c1 c2 replicate_add)
  with progress_trans [OF p1 p2] show ?thesis
    unfolding completed_def by blast
qed

lemma abort_shape_shift:
  assumes "exit_codes engine k new1 = replicate n1 0"
    and "abort_shape engine (k + length new1) new2 n2 e"
  shows "abort_shape engine k (new1 @ new2) (n1 + n2) e"
proof -
  from assms(1) have l: "length new1 = n1"
    using exit_codes_length [of engine k new1] by simp
  from assms(2) consider
    (before) "exit_codes engine (k + length new1) new2 = replicate n2 0"
      "e = TypeError \<or> e = FileExistsError"
  | (unread) "exit_codes engine (k + length new1) new2 = replicate n2 0 @ [0]"
      "gave_no_scan e"
  | (failed) "returncode (engine (k + length new1 + n2) (last new2)) \<noteq> 0"
      "exit_codes engine (k + length new1) new2
         = replicate n2 0 @ [returncode (engine (k + length new1 + n2) (last new2))]"
      "e = raised_for (engine (k + length new1 + n2) (last new2))"
    unfolding abort_shape_def by blast
  then show ?thesis
  proof cases
    case before
    then show ?thesis
      by (simp add: abort_shape_def exit_codes_append assms(1) replicate_add)
  next
    case unread
    then show ?thesis
      by (simp add: abort_shape_def exit_codes_append assms(1) replicate_add)
  next
    case failed
    from failed(2) have "new2 \<noteq> []"
      by auto
    then have "last (new1 @ new2) = last new2"
      by simp
    moreover have "k + length new1 + n2 = k + (n1 + n2)"
      using l by simp
    ultimately show ?thesis
      using failed
      by (simp add: abort_shape_def exit_codes_append assms(1) replicate_add add.assoc)
  qed
qed

lemma completed_aborted:
  assumes "completed w w1" and "aborted w1 e w2"
  shows "aborted w e w2"
proof -
  from assms(1) obtain new1 scans1 where p1: "progress w w1 new1 scans1"
    and c1: "exit_codes (nmap w) (length (invocations w)) new1 = replicate (length scans1) 0"
    by (auto simp: completed_def)
  from assms(2) obtain new2 scans2 where p2: "progress w1 w2 new2 scans2"
    and c2: "abort_shape (nmap w1) (length (invocations w1)) new2 (length scans2) e"
    unfolding aborted_def by blast
  from p1 have "nmap w1 = nmap w" "length (invocations w1) = length (invocations w) + length new1"
    by (simp_all add: progress_def)
  with c2 have "abort_shape (nmap w) (length (invocations w) + length new1) new2 (length scans2) e"
    by simp
  from abort_shape_shift [OF c1 this]
  have "abort_shape (nmap w) (length (invocations w)) (new1 @ new2) (length (scans1 @ scans2)) e"
    by simp
  with progress_trans [OF p1 p2] show ?thesis
    unfolding aborted_def by blast
qed

lemma process_and_send_scan_facts:
  assumes "process_and_send_scan scan interface w = (hosts_in_scan, w')"
  shows "hosts_in_scan = map (\<lambda>found_ip. (found_ip, interface)) (full_ip_list scan)"
    and "queue w' = queue w @ [scan\<lparr>is_signed := True\<rparr>]"
    and "invocations w' = invocations w" and "nmap w' = nmap w"
    and "parse_nmap_xml w' = parse_nmap_xml w" and "files w' = files w"
  using assms by (auto simp: process_and_send_scan_def Let_def)

lemma scan_step_completed:
  assumes "run_scan st options target w = (Inr scan, w1)"
    and "process_and_send_scan scan interface w1 = (hosts_in_scan, w2)"
  shows "completed w w2"
proof -
  from run_scan_Inr(1) [OF assms(1)] obtain p
    where i: "invocations w1 = invocations w @ [nmap_cmd options p target]"
      and rc: "returncode (nmap w (length (invocations w)) (nmap_cmd options p target)) = 0"
    by blast
  note rf = run_scan_Inr(2-4) [OF assms(1)] and pf = process_and_send_scan_facts [OF assms(2)]
  have "progress w w2 [nmap_cmd options p target] [scan\<lparr>is_signed := True\<rparr>]"
    by (simp add: progress_def rf pf i)
  moreover have "exit_codes (nmap w) (length (invocations w)) [nmap_cmd options p target]
      = replicate (length [scan\<lparr>is_signed := True\<rparr>]) 0"
    by (simp add: rc)
  ultimately show ?thesis
    unfolding completed_def by blast
qed

lemma scan_step_aborted:
  assumes "run_scan st options target w = (Inl e, w1)"
  shows "aborted w e w1"
proof -
  note f = run_scan_Inl [OF assms]
  then consider
    (none) "e = FileExistsError" "invocations w1 = invocations w"
  | (failed) p where "invocations w1 = invocations w @ [nmap_cmd options p target]"
      "returncode (nmap w (length (invocations w)) (nmap_cmd options p target)) \<noteq> 0"
      "e = raised_for (nmap w (length (invocations w)) (nmap_cmd options p target))"
  | (unread) p where "invocations w1 = invocations w @ [nmap_cmd options p target]"
      "returncode (nmap w (length (invocations w)) (nmap_cmd options p target)) = 0"
      "gave_no_scan e"
    by blast
  then show ?thesis
  proof cases
    case none
    with f have "progress w w1 [] []"
      by (simp add: progress_def)
    moreover from none have "abort_shape (nmap w) (length (invocations w)) [] (length ([]::NmapScan list)) e"
      by (simp add: abort_shape_def)
    ultimately show ?thesis
      unfolding aborted_def by blast
  next
    case (failed p)
    with f have "progress w w1 [nmap_cmd options p target] []"
      by (simp add: progress_def)
    moreover from failed
    have "abort_shape (nmap w) (length (invocations w)) [nmap_cmd options p target]
            (length ([]::NmapScan list)) e"
      by (simp add: abort_shape_def)
    ultimately show ?thesis
      unfolding aborted_def by blast
  next
    case (unread p)
    with f have "progress w w1 [nmap_cmd options p target] []"
      by (simp add: progress_def)
    moreover from unread
    have "abort_shape (nmap w) (length (invocations w)) [nmap_cmd options p target]
            (length ([]::NmapScan list)) e"
      by (simp add: abort_shape_def)
    ultimately show ?thesis
      unfolding aborted_def by blast
  qed
qed

section \<open>The loops of the sweep\<close>

lemma indepth_host_scan_Inr:
  assumes "indepth_host_scan address interface w = (Inr scan, w1)"
    and "process_and_send_scan scan i w1 = (hosts_in_scan, w2)"
  shows "completed w w2"
  using assms
  by (auto simp: indepth_host_scan_def Let_def split: if_splits option.splits
      intro: scan_step_completed)

lemma indepth_host_scan_Inl:
  assumes "indepth_host_scan address interface w = (Inl e, w1)"
  shows "aborted w e w1"
proof (cases "is_link_local address \<and> interface = None")
  case True
  with assms have "e = TypeError" "w1 = w"
    by (auto simp: indepth_host_scan_def Let_def)
  moreover have "progress w w [] []"
    by (simp add: progress_def)
  moreover have "abort_shape (nmap w) (length (invocations w)) [] (length ([]::NmapScan list)) TypeError"
    by (simp add: abort_shape_def)
  ultimately show ?thesis
    unfolding aborted_def by blast
next
  case False
  with assms show ?thesis
    by (auto simp: indepth_host_scan_def Let_def split: if_splits option.splits
        intro: scan_step_aborted)
qed

lemma link_local_discovery_trace:
  "link_local_discovery interfaces d w = (r, w') \<Longrightarrow>
     (case r of Inr d' \<Rightarrow> completed w w' | Inl e \<Rightarrow> aborted w e w')"
proof (induction interfaces arbitrary: d w)
  case Nil
  then show ?case by (auto simp: completed_refl)
next
  case (Cons interface rest)
  show ?case
  proof (cases "v6_link_local_scan interface w")
    case (Pair r1 w1)
    show ?thesis
    proof (cases r1)
      case (Inl e)
      with Pair Cons.prems have "r = Inl e" "w' = w1" by auto
      with Pair Inl show ?thesis
        by (auto simp: v6_link_local_scan_def intro: scan_step_aborted)
    next
      case (Inr scan)
      obtain hs w2 where p: "process_and_send_scan scan (Some interface) w1 = (hs, w2)"
        by (cases "process_and_send_scan scan (Some interface) w1")
      with Pair Inr have c: "completed w w2"
        by (auto simp: v6_link_local_scan_def intro: scan_step_completed)
      from Pair Inr p Cons.prems have "link_local_discovery rest (d @ hs) w2 = (r, w')"
        by simp
      from Cons.IH [OF this] c show ?thesis
        by (auto split: sum.splits intro: completed_trans completed_aborted)
    qed
  qed
qed

lemma network_discover_trace:
  "network_discover networks d w = (r, w') \<Longrightarrow>
     (case r of Inr d' \<Rightarrow> completed w w' | Inl e \<Rightarrow> aborted w e w')"
proof (induction networks arbitrary: d w)
  case Nil
  then show ?case by (auto simp: completed_refl)
next
  case (Cons network rest)
  define step where "step = (if network_version network = 4
            then arp_host_discovery_scan network w
            else nd_host_discovery_scan network w)"
  have "\<exists>st options. step = run_scan st options (Some (Network network)) w"
    unfolding step_def arp_host_discovery_scan_def nd_host_discovery_scan_def
    by (cases "network_version network = 4") auto
  then obtain st options where s: "step = run_scan st options (Some (Network network)) w"
    by blast
  show ?case
  proof (cases step)
    case (Pair r1 w1)
    show ?thesis
    proof (cases r1)
      case (Inl e)
      with Pair Cons.prems have "r = Inl e" "w' = w1" by (auto simp: step_def)
      with Pair Inl s show ?thesis
        by (auto intro: scan_step_aborted)
    next
      case (Inr scan)
      obtain hs w2 where p: "process_and_send_scan scan None w1 = (hs, w2)"
        by (cases "process_and_send_scan scan None w1")
      with Pair Inr s have c: "completed w w2"
        by (auto intro: scan_step_completed)
      from Pair Inr p Cons.prems have "network_discover rest (d @ hs) w2 = (r, w')"
        by (simp add: step_def)
      from Cons.IH [OF this] c show ?thesis
        by (auto split: sum.splits intro: completed_trans completed_aborted)
    qed
  qed
qed

lemma protocol_discovery_trace:
  "protocol_discovery networks w = (r, w') \<Longrightarrow>
     (case r of Inr u \<Rightarrow> completed w w' | Inl e \<Rightarrow> aborted w e w')"
proof (induction networks arbitrary: w)
  case Nil
  then show ?case by (auto simp: completed_refl)
next
  case (Cons network rest)
  show ?case
  proof (cases "protocol_scan network w")
    case (Pair r1 w1)
    show ?thesis
    proof (cases r1)
      case (Inl e)
      with Pair Cons.prems have "r = Inl e" "w' = w1" by auto
      with Pair Inl show ?thesis
        by (auto simp: protocol_scan_def Let_def intro: scan_step_aborted)
    next
      case (Inr scan)
      obtain hs w2 where p: "process_and_send_scan scan None w1 = (hs, w2)"
        by (cases "process_and_send_scan scan None w1")
      with Pair Inr have c: "completed w w2"
        by (auto simp: protocol_scan_def Let_def intro: scan_step_completed)
      from Pair Inr p Cons.prems have "protocol_discovery rest w2 = (r, w')"
        by simp
      from Cons.IH [OF this] c show ?thesis
        by (auto split: sum.splits intro: completed_trans completed_aborted)
    qed
  qed
qed

lemma host_scanning_trace:
  "host_scanning hosts w = (r, w') \<Longrightarrow>
     (case r of Inr u \<Rightarrow> completed w w' | Inl e \<Rightarrow> aborted w e w')"
proof (induction hosts arbitrary: w)
  case Nil
  then show ?case by (auto simp: completed_refl)
next
  case (Cons host_tuple rest)
  show ?case
  proof (cases "indepth_host_scan (fst host_tuple) (snd host_tuple) w")
    case (Pair r1 w1)
    show ?thesis
    proof (cases r1)
      case (Inl e)
      with Pair Cons.prems have "r = Inl e" "w' = w1" by auto
      with Pair Inl show ?thesis
        by (auto intro: indepth_host_scan_Inl)
    next
      case (Inr scan)
      obtain hs w2 where p: "process_and_send_scan scan None w1 = (hs, w2)"
        by (cases "process_and_send_scan scan None w1")
      with Pair Inr have c: "completed w w2"
        by (auto intro: indepth_host_scan_Inr)
      from Pair Inr p Cons.prems have "host_scanning rest w2 = (r, w')"
        by simp
      from Cons.IH [OF this] c show ?thesis
        by (auto split: sum.splits intro: completed_trans completed_aborted)
    qed
  qed
qed

lemma run_network_scans_trace:
  assumes "run_network_scans nmap_config w = (r, w')"
  shows "case r of Inr u \<Rightarrow> completed w w' | Inl e \<Rightarrow> aborted w e w'"
proof -
  obtain r1 w1 where 1: "link_local_discovery (scan_interfaces nmap_config) [] w = (r1, w1)"
    by (cases "link_local_discovery (scan_interfaces nmap_config) [] w")
  note t1 = link_local_discovery_trace [OF 1]
  show ?thesis
  proof (cases r1)
    case (Inl e)
    with 1 assms t1 show ?thesis by (auto simp: run_network_scans_def)
  next
    case d1: (Inr d1)
    obtain r2 w2 where 2: "network_discover (networks_to_scan nmap_config) d1 w1 = (r2, w2)"
      by (cases "network_discover (networks_to_scan nmap_config) d1 w1")
    note t2 = network_discover_trace [OF 2]
    show ?thesis
    proof (cases r2)
      case (Inl e)
      with 1 d1 2 assms t1 t2 show ?thesis
        by (auto simp: run_network_scans_def intro: completed_aborted)
    next
      case d2: (Inr d2)
      obtain r3 w3 where 3: "protocol_discovery (networks_to_scan nmap_config) w2 = (r3, w3)"
        by (cases "protocol_discovery (networks_to_scan nmap_config) w2")
      note t3 = protocol_discovery_trace [OF 3]
      from t1 t2 d1 d2 have c2: "completed w w2"
        by (auto intro: completed_trans)
      show ?thesis
      proof (cases r3)
        case (Inl e)
        with 1 d1 2 d2 3 assms t3 c2 show ?thesis
          by (auto simp: run_network_scans_def intro: completed_aborted)
      next
        case (Inr u)
        with t3 c2 have c3: "completed w w3"
          by (auto intro: completed_trans)
        from 1 d1 2 d2 3 Inr assms have "host_scanning d2 w3 = (r, w')"
          by (simp add: run_network_scans_def)
        from host_scanning_trace [OF this] c3 show ?thesis
          by (auto split: sum.splits intro: completed_trans completed_aborted)
      qed
    qed
  qed
qed

section \<open>The claims\<close>

text \<open>The definitions a concrete run unfolds.\<close>

lemmas eval_defs = run_network_scans_def run_scan_def mkstemp_def subprocess_run_def nmap_cmd_def
  arp_host_discovery_scan_def nd_host_discovery_scan_def v6_link_local_scan_def protocol_scan_def
  indepth_host_scan_def process_and_send_scan_def ipv4_string_def ipv6_string_def hextets_def
  compress_hextets_def digit_char_def continuation_def read_text_def Let_def

text \<open>
  Claim C2. An engine failure aborts the whole sweep. Whatever the sweep returns, its
  invocations and the reports it queued extend the ones before it, and every queued
  report is signed. If any invocation of the sweep exits with a nonzero status \<open>c\<close>,
  then that invocation is the last one (the exit statuses are zeros followed by \<open>c\<close>:
  no invocation follows in this phase or a later one), the sweep ends with the
  exception \<^verbatim>\<open>run_scan\<close> raised for it, and the queue holds one signed report for each
  invocation before it. Conversely a sweep that ends with \<open>NmapFailure c text\<close> has
  this shape, with \<open>c\<close> the one nonzero status.
\<close>

theorem engine_failure_aborts_sweep:
  assumes "run_network_scans nmap_config w = (r, w')"
  shows "\<exists>new scans.
           invocations w' = invocations w @ new \<and> queue w' = queue w @ scans
         \<and> list_all is_signed scans
         \<and> (\<forall>c. c \<in> set (exit_codes (nmap w) (length (invocations w)) new) \<and> c \<noteq> 0 \<longrightarrow>
                exit_codes (nmap w) (length (invocations w)) new = replicate (length scans) 0 @ [c]
              \<and> returncode (nmap w (length (invocations w) + length scans) (last new)) = c
              \<and> r = Inl (raised_for (nmap w (length (invocations w) + length scans) (last new))))
         \<and> (\<forall>c text. r = Inl (NmapFailure c text) \<longrightarrow>
                c \<noteq> 0
              \<and> exit_codes (nmap w) (length (invocations w)) new = replicate (length scans) 0 @ [c])"
proof (cases r)
  case (Inr u)
  with run_network_scans_trace [OF assms] obtain new scans
    where p: "progress w w' new scans"
      and c: "exit_codes (nmap w) (length (invocations w)) new = replicate (length scans) 0"
    by (auto simp: completed_def)
  from p have "invocations w' = invocations w @ new \<and> queue w' = queue w @ scans
      \<and> list_all is_signed scans"
    by (simp add: progress_def)
  with c Inr show ?thesis
    by (intro exI [of _ new] exI [of _ scans]) auto
next
  case (Inl e)
  with run_network_scans_trace [OF assms] obtain new scans
    where p: "progress w w' new scans"
      and c: "abort_shape (nmap w) (length (invocations w)) new (length scans) e"
    by (auto simp: aborted_def)
  from p have q: "invocations w' = invocations w @ new \<and> queue w' = queue w @ scans
      \<and> list_all is_signed scans"
    by (simp add: progress_def)
  from c consider
    (before) "exit_codes (nmap w) (length (invocations w)) new = replicate (length scans) 0"
      "e = TypeError \<or> e = FileExistsError"
  | (unread) "exit_codes (nmap w) (length (invocations w)) new = replicate (length scans) 0 @ [0]"
      "gave_no_scan e"
  | (failed) "returncode (nmap w (length (invocations w) + length scans) (last new)) \<noteq> 0"
      "exit_codes (nmap w) (length (invocations w)) new
         = replicate (length scans) 0
           @ [returncode (nmap w (length (invocations w) + length scans) (last new))]"
      "e = raised_for (nmap w (length (invocations w) + length scans) (last new))"
    unfolding abort_shape_def by blast
  then show ?thesis
  proof cases
    case before
    with q Inl show ?thesis
      by (intro exI [of _ new] exI [of _ scans]) auto
  next
    case unread
    with q Inl show ?thesis
      by (intro exI [of _ new] exI [of _ scans]) (auto simp: gave_no_scan_def)
  next
    case failed
    with q Inl show ?thesis
      by (intro exI [of _ new] exI [of _ scans])
        (auto simp: raised_for_def split: option.splits)
  qed
qed

lemma world_B_sweep:
  "run_network_scans sweep_config_B world_B
     = (Inl (NmapFailure 1 [98, 111, 111, 109]), snd (run_network_scans sweep_config_B world_B))"
  by (simp add: eval_defs sweep_config_B_def world_B_def)

theorem engine_failure_aborts_sweep_witness:
  "fst (run_network_scans sweep_config_B world_B) = Inl (NmapFailure 1 [98, 111, 111, 109])
   \<and> invocations (snd (run_network_scans sweep_config_B world_B))
       = [[''nmap'', ''-6'', ''-R'', ''-sn'', ''-e'', ''lan0'',
           ''--script=targets-ipv6-multicast-*'', ''--script-args=newtargets'',
           ''-oX'', ''/tmp/tmpa''],
          [''nmap'', ''-sn'', ''-R'', ''-PR'', ''-oX'', ''/tmp/tmpb'', ''10.0.0.0/24'']]
   \<and> (\<exists>new scans.
          invocations (snd (run_network_scans sweep_config_B world_B)) = invocations world_B @ new
        \<and> queue (snd (run_network_scans sweep_config_B world_B)) = queue world_B @ scans
        \<and> list_all is_signed scans
        \<and> exit_codes (nmap world_B) (length (invocations world_B)) new
            = replicate (length scans) 0 @ [1])"
proof -
  have 1: "fst (run_network_scans sweep_config_B world_B) = Inl (NmapFailure 1 [98, 111, 111, 109])"
    by (simp add: eval_defs sweep_config_B_def world_B_def)
  have 2: "invocations (snd (run_network_scans sweep_config_B world_B))
       = [[''nmap'', ''-6'', ''-R'', ''-sn'', ''-e'', ''lan0'',
           ''--script=targets-ipv6-multicast-*'', ''--script-args=newtargets'',
           ''-oX'', ''/tmp/tmpa''],
          [''nmap'', ''-sn'', ''-R'', ''-PR'', ''-oX'', ''/tmp/tmpb'', ''10.0.0.0/24'']]"
    by (simp add: eval_defs sweep_config_B_def world_B_def)
  from engine_failure_aborts_sweep [OF world_B_sweep]
  have 3: "\<exists>new scans.
          invocations (snd (run_network_scans sweep_config_B world_B)) = invocations world_B @ new
        \<and> queue (snd (run_network_scans sweep_config_B world_B)) = queue world_B @ scans
        \<and> list_all is_signed scans
        \<and> exit_codes (nmap world_B) (length (invocations world_B)) new
            = replicate (length scans) 0 @ [1]"
    by blast
  from 1 2 3 show ?thesis by blast
qed




lemma mkstemp_keeps_file:
  assumes "mkstemp w = (Inr p, w1)" and "subprocess_run args w1 = (proc, w2)"
  shows "files w2 p \<noteq> None"
  using assms mkstemp_Inr(2) [OF assms(1)]
  by (auto simp: subprocess_run_def Let_def split: option.splits)

text \<open>
  Claim C7, as amended. Once the temporary file is allocated and the engine has run,
  \<^verbatim>\<open>run_scan\<close> raises \<open>NmapFailure c text\<close> exactly when the exit status is nonzero,
  \<open>c\<close> is that status and the captured diagnostics decode as UTF-8 to \<open>text\<close>. With
  a nonzero status and diagnostics that do not decode it raises
  \<open>UnicodeDecodeError\<close> instead. With status 0 it never raises \<open>NmapFailure\<close>: it
  reads the report file in text mode. When the file's bytes do not decode in the
  locale's encoding, it raises \<open>UnicodeDecodeError\<close> and the file stays. Otherwise it
  hands the decoded text, line ends normalised, to the parser; it returns a scan of
  the requested type holding the parsed hosts when the parser accepts the text, and
  raises the parser's error when it does not.
\<close>

theorem run_scan_engine_failure:
  assumes "mkstemp w = (Inr xml_logfile, w1)"
    and "subprocess_run (nmap_cmd options xml_logfile target) w1 = (nmap_proc, w2)"
  shows "(\<forall>c text. fst (run_scan st options target w) = Inl (NmapFailure c text)
            \<longleftrightarrow> returncode nmap_proc \<noteq> 0 \<and> c = returncode nmap_proc
                \<and> utf8_decode (stderr nmap_proc) = Some text)
       \<and> (returncode nmap_proc \<noteq> 0 \<and> utf8_decode (stderr nmap_proc) = None \<longrightarrow>
            fst (run_scan st options target w) = Inl UnicodeDecodeError)
       \<and> (returncode nmap_proc = 0 \<longrightarrow>
            (\<exists>content. files w2 xml_logfile = Some content
               \<and> (case locale_decode w content of
                     None \<Rightarrow>
                       fst (run_scan st options target w) = Inl UnicodeDecodeError
                       \<and> files (snd (run_scan st options target w)) xml_logfile = Some content
                   | Some text \<Rightarrow>
                       (case parse_nmap_xml w (universal_newlines text) of
                          None \<Rightarrow> fst (run_scan st options target w) = Inl OutputParseError
                        | Some found \<Rightarrow>
                            (\<exists>scan. fst (run_scan st options target w) = Inr scan
                               \<and> scan_type scan = Some st \<and> full_ip_list scan = found)))))"
proof -
  note mf = mkstemp_Inr [OF assms(1)] and sf = subprocess_run_facts [OF assms(2)]
  from mkstemp_keeps_file [OF assms] obtain content
    where x: "files w2 xml_logfile = Some content"
    by auto
  have p: "parse_nmap_xml w2 = parse_nmap_xml w" "locale_decode w2 = locale_decode w"
    using mf sf by simp_all
  show ?thesis
    using assms x p
    by (auto simp: run_scan_def read_text_def Let_def split: option.splits)
qed

lemma world_fail_mkstemp:
  "mkstemp world_fail = (Inr ''/tmp/tmpa'', snd (mkstemp world_fail))"
  by (simp add: mkstemp_def world_fail_def)

lemma world_fail_subprocess_run:
  "subprocess_run (nmap_cmd ''-sS'' ''/tmp/tmpa'' (Some (Network net_10))) (snd (mkstemp world_fail))
     = (\<lparr>returncode = 1, stderr = [98, 111, 111, 109], xml_report = []\<rparr>,
        snd (subprocess_run (nmap_cmd ''-sS'' ''/tmp/tmpa'' (Some (Network net_10)))
               (snd (mkstemp world_fail))))"
  by (simp add: subprocess_run_def mkstemp_def world_fail_def Let_def split: option.splits)

theorem run_scan_engine_failure_witness:
  "fst (run_scan PORT_SCAN ''-sS'' (Some (Network net_10)) world_fail)
     = Inl (NmapFailure 1 [98, 111, 111, 109])"
proof -
  have "returncode \<lparr>returncode = 1, stderr = [98, 111, 111, 109], xml_report = []\<rparr> \<noteq> 0
      \<and> (1::int) = returncode \<lparr>returncode = 1, stderr = [98, 111, 111, 109], xml_report = []\<rparr>
      \<and> utf8_decode (stderr \<lparr>returncode = 1, stderr = [98, 111, 111, 109], xml_report = []\<rparr>)
          = Some [98, 111, 111, 109]"
    by simp
  with run_scan_engine_failure [OF world_fail_mkstemp world_fail_subprocess_run, of PORT_SCAN]
  show ?thesis by blast
qed

text \<open>
  Claim C7 as stated fails three times. In \<open>world_bad_stderr\<close> the engine exits with
  status 1 and \<^verbatim>\<open>run_scan\<close> raises \<open>UnicodeDecodeError\<close>, not \<open>NmapFailure\<close>. In
  \<open>world_bad_report\<close> the engine exits with status 0 and \<^verbatim>\<open>run_scan\<close> returns no
  scan: the parser's error leaves it. In \<open>world_bad_encoding\<close> the engine exits with
  status 0 and \<^verbatim>\<open>run_scan\<close> returns no scan either: reading the report raises
  \<open>UnicodeDecodeError\<close>.
\<close>

theorem run_scan_engine_failure_counterexample:
  "returncode (nmap world_bad_stderr 0 [''nmap'', ''-sS'', ''-oX'', ''/tmp/tmpa'', ''10.0.0.0/24'']) = 1
   \<and> invocations (snd (run_scan PORT_SCAN ''-sS'' (Some (Network net_10)) world_bad_stderr))
       = [[''nmap'', ''-sS'', ''-oX'', ''/tmp/tmpa'', ''10.0.0.0/24'']]
   \<and> fst (run_scan PORT_SCAN ''-sS'' (Some (Network net_10)) world_bad_stderr)
       = Inl UnicodeDecodeError
   \<and> returncode (nmap world_bad_report 0 [''nmap'', ''-sS'', ''-oX'', ''/tmp/tmpa'', ''10.0.0.0/24'']) = 0
   \<and> invocations (snd (run_scan PORT_SCAN ''-sS'' (Some (Network net_10)) world_bad_report))
       = [[''nmap'', ''-sS'', ''-oX'', ''/tmp/tmpa'', ''10.0.0.0/24'']]
   \<and> fst (run_scan PORT_SCAN ''-sS'' (Some (Network net_10)) world_bad_report)
       = Inl OutputParseError
   \<and> returncode (nmap world_bad_encoding 0 [''nmap'', ''-sS'', ''-oX'', ''/tmp/tmpa'', ''10.0.0.0/24'']) = 0
   \<and> invocations (snd (run_scan PORT_SCAN ''-sS'' (Some (Network net_10)) world_bad_encoding))
       = [[''nmap'', ''-sS'', ''-oX'', ''/tmp/tmpa'', ''10.0.0.0/24'']]
   \<and> fst (run_scan PORT_SCAN ''-sS'' (Some (Network net_10)) world_bad_encoding)
       = Inl UnicodeDecodeError"
  by (simp add: eval_defs world_bad_stderr_def world_bad_report_def world_bad_encoding_def
      net_10_def)

text \<open>
  The temporary file. A scan that returns has removed its file (\<open>run_scan_Inr\<close>,
  first part); a scan that ends with \<open>NmapFailure\<close> has not: line 89 raises before
  line 95 removes the file.
\<close>

lemma run_scan_keeps_file_on_engine_failure:
  assumes "mkstemp w = (Inr xml_logfile, w1)"
    and "fst (run_scan st options target w) = Inl (NmapFailure c text)"
  shows "files (snd (run_scan st options target w)) xml_logfile \<noteq> None"
proof -
  obtain proc w2 where s: "subprocess_run (nmap_cmd options xml_logfile target) w1 = (proc, w2)"
    by (cases "subprocess_run (nmap_cmd options xml_logfile target) w1")
  from mkstemp_keeps_file [OF assms(1) s] assms s show ?thesis
    by (auto simp: run_scan_def read_text_def Let_def split: option.splits if_splits)
qed

text \<open>
  Claim C8 at an engine failure. In \<open>world_fail\<close> no file \<^verbatim>\<open>/tmp/tmpa\<close> exists
  before the scan; the scan allocates it, the engine exits with status 1,
  \<^verbatim>\<open>run_scan\<close> raises \<open>NmapFailure\<close>, and the file is still there afterwards.
\<close>

theorem temporary_file_left_on_engine_failure:
  "files world_fail ''/tmp/tmpa'' = None
   \<and> fst (run_scan PORT_SCAN ''-sS'' (Some (Network net_10)) world_fail)
       = Inl (NmapFailure 1 [98, 111, 111, 109])
   \<and> invocations (snd (run_scan PORT_SCAN ''-sS'' (Some (Network net_10)) world_fail))
       = [[''nmap'', ''-sS'', ''-oX'', ''/tmp/tmpa'', ''10.0.0.0/24'']]
   \<and> files (snd (run_scan PORT_SCAN ''-sS'' (Some (Network net_10)) world_fail)) ''/tmp/tmpa''
       = Some []"
  by (simp add: eval_defs world_fail_def net_10_def)

lemma run_scan_invocation:
  assumes "mkstemp w = (Inr p, w1)"
  shows "invocations (snd (run_scan st options target w))
           = invocations w @ [nmap_cmd options p target]"
proof -
  obtain proc w2 where s: "subprocess_run (nmap_cmd options p target) w1 = (proc, w2)"
    by (cases "subprocess_run (nmap_cmd options p target) w1")
  note mf = mkstemp_Inr [OF assms] and sf = subprocess_run_facts [OF s]
  from assms s mf sf show ?thesis
    by (auto simp: run_scan_def Let_def split: option.splits sum.splits)
qed

text \<open>
  Claim C9, as amended. The argument list is determined by the option string, the
  target and the name of the temporary file allocated for the invocation; the scan
  type plays no part. Two invocations with the same option string and target build
  lists that agree everywhere but in the one element after \<^verbatim>\<open>-oX\<close>, the file name,
  and are identical when the two file names are.
\<close>

theorem command_determined_up_to_output_file:
  assumes "mkstemp w = (Inr p, w1)" and "mkstemp v = (Inr q, v1)"
  shows "invocations (snd (run_scan st options target w))
           = invocations w
             @ [(''nmap'' # str_split CHR '' '' options @ [''-oX'']) @ [p]
                  @ (case target of None \<Rightarrow> [] | Some t \<Rightarrow> [compressed t])]
       \<and> invocations (snd (run_scan st' options target v))
           = invocations v
             @ [(''nmap'' # str_split CHR '' '' options @ [''-oX'']) @ [q]
                  @ (case target of None \<Rightarrow> [] | Some t \<Rightarrow> [compressed t])]"
  using run_scan_invocation [OF assms(1)] run_scan_invocation [OF assms(2)]
  by (simp add: nmap_cmd_def)

lemma world_ok_mkstemp:
  "mkstemp world_ok = (Inr ''/tmp/tmpa'', snd (mkstemp world_ok))"
  by (simp add: mkstemp_def world_ok_def)

lemma world_ok_second_mkstemp:
  "mkstemp (snd (run_scan ARP_DISCOVERY ''-sn -R -PR'' (Some (Network net_10)) world_ok))
     = (Inr ''/tmp/tmpb'',
        snd (mkstemp (snd (run_scan ARP_DISCOVERY ''-sn -R -PR'' (Some (Network net_10)) world_ok))))"
  by (simp add: eval_defs world_ok_def net_10_def)

theorem command_determined_up_to_output_file_witness:
  "invocations (snd (run_scan ARP_DISCOVERY ''-sn -R -PR'' (Some (Network net_10)) world_ok))
     = [[''nmap'', ''-sn'', ''-R'', ''-PR'', ''-oX'', ''/tmp/tmpa'', ''10.0.0.0/24'']]
   \<and> invocations (snd (run_scan ARP_DISCOVERY ''-sn -R -PR'' (Some (Network net_10))
                    (snd (run_scan ARP_DISCOVERY ''-sn -R -PR'' (Some (Network net_10)) world_ok))))
     = [[''nmap'', ''-sn'', ''-R'', ''-PR'', ''-oX'', ''/tmp/tmpa'', ''10.0.0.0/24''],
        [''nmap'', ''-sn'', ''-R'', ''-PR'', ''-oX'', ''/tmp/tmpb'', ''10.0.0.0/24'']]"
proof -
  have c: "network_compressed net_10 = ''10.0.0.0/24''"
    by (simp add: net_10_def ipv4_string_def digit_char_def)
  have i: "invocations world_ok = []"
    by (simp add: world_ok_def)
  from command_determined_up_to_output_file [OF world_ok_mkstemp world_ok_second_mkstemp,
      where st = ARP_DISCOVERY and st' = ARP_DISCOVERY and options = "''-sn -R -PR''"
        and target = "Some (Network net_10)"]
  show ?thesis
    by (simp add: c i)
qed

text \<open>
  Claim C9 as stated fails: the same scan type, option string and target, run twice
  in a row in \<open>world_ok\<close>, give two different argument lists.
\<close>

theorem command_differs_between_invocations:
  "invocations (snd (run_scan ARP_DISCOVERY ''-sn -R -PR'' (Some (Network net_10))
                    (snd (run_scan ARP_DISCOVERY ''-sn -R -PR'' (Some (Network net_10)) world_ok))))
     = [[''nmap'', ''-sn'', ''-R'', ''-PR'', ''-oX'', ''/tmp/tmpa'', ''10.0.0.0/24''],
        [''nmap'', ''-sn'', ''-R'', ''-PR'', ''-oX'', ''/tmp/tmpb'', ''10.0.0.0/24'']]
   \<and> [''nmap'', ''-sn'', ''-R'', ''-PR'', ''-oX'', ''/tmp/tmpa'', ''10.0.0.0/24'']
     \<noteq> [''nmap'', ''-sn'', ''-R'', ''-PR'', ''-oX'', ''/tmp/tmpb'', ''10.0.0.0/24'']"
  by (simp add: eval_defs world_ok_def net_10_def)

text \<open>
  The blacklist. \<^verbatim>\<open>run_network_scans\<close> never reads \<^verbatim>\<open>blacklisted_hosts\<close>: the
  sweep is the same whatever the list holds.
\<close>

lemma run_network_scans_ignores_blacklist:
  "run_network_scans (nmap_config\<lparr>blacklisted_hosts := hosts\<rparr>) w = run_network_scans nmap_config w"
  by (simp add: run_network_scans_def split: prod.splits sum.splits)

text \<open>
  Claim C1 at a blacklisted host. The configuration blacklists \<^verbatim>\<open>10.0.0.5\<close>, the
  ARP discovery of phase 2 finds it, and phase 4 runs the in-depth scan on it: the
  third invocation targets \<^verbatim>\<open>10.0.0.5\<close> and its report is signed and queued.
\<close>

theorem blacklisted_host_is_scanned:
  "blacklisted_hosts sweep_config_C = [IPv4Address 167772165]
   \<and> fst (run_network_scans sweep_config_C world_C) = Inr ()
   \<and> invocations (snd (run_network_scans sweep_config_C world_C))
       = [[''nmap'', ''-sn'', ''-R'', ''-PR'', ''-oX'', ''/tmp/tmpa'', ''10.0.0.0/24''],
          [''nmap'', ''-sO'', ''-oX'', ''/tmp/tmpb'', ''10.0.0.0/24''],
          [''nmap'', ''-sS'', ''-A'', ''-T4'', ''-oX'', ''/tmp/tmpc'', ''10.0.0.5'']]
   \<and> queue (snd (run_network_scans sweep_config_C world_C))
       = [\<lparr>scan_type = Some ARP_DISCOVERY, scan_target = Some ''10.0.0.0/24'',
            full_ip_list = [IPv4Address 167772165], is_signed = True\<rparr>,
          \<lparr>scan_type = Some IP_PROTOCOL_DETECTION, scan_target = Some ''10.0.0.0/24'',
            full_ip_list = [], is_signed = True\<rparr>,
          \<lparr>scan_type = Some SERVICE_DISCOVERY, scan_target = Some ''10.0.0.5/32'',
            full_ip_list = [], is_signed = True\<rparr>]"
  by (simp add: eval_defs sweep_config_C_def world_C_def net_10_def)

text \<open>
  The protocol scan of an IPv6 network. Line 136 joins \<^verbatim>\<open>"-6"\<close> and \<^verbatim>\<open>"-sO"\<close>
  without a space, so the option string is one word and the engine gets the single
  argument \<^verbatim>\<open>-6-sO\<close>.
\<close>

lemma protocol_scan_ipv6_command:
  assumes "mkstemp w = (Inr p, w1)"
  shows "invocations (snd (protocol_scan (IPv6Network n l) w))
           = invocations w
             @ [[''nmap'', ''-6-sO'', ''-oX'', p, network_compressed (IPv6Network n l)]]"
  using run_scan_invocation [OF assms, of IP_PROTOCOL_DETECTION "''-6-sO''"
      "Some (Network (IPv6Network n l))"]
  by (simp add: protocol_scan_def nmap_cmd_def)

text \<open>
  Claim C4 at an IPv6 network. For \<^verbatim>\<open>2001:db8::/32\<close> the argument list holds neither
  the IPv6-mode flag \<^verbatim>\<open>-6\<close> nor the protocol-detection flag \<^verbatim>\<open>-sO\<close>.
\<close>

theorem protocol_scan_ipv6_lacks_flag:
  "network_version net_2001_db8 = 6
   \<and> invocations (snd (protocol_scan net_2001_db8 world_ok))
       = [[''nmap'', ''-6-sO'', ''-oX'', ''/tmp/tmpa'', ''2001:db8::/32'']]
   \<and> ''-6'' \<notin> set [''nmap'', ''-6-sO'', ''-oX'', ''/tmp/tmpa'', ''2001:db8::/32'']
   \<and> ''-sO'' \<notin> set [''nmap'', ''-6-sO'', ''-oX'', ''/tmp/tmpa'', ''2001:db8::/32'']"
  by (simp add: eval_defs world_ok_def net_2001_db8_def)

lemma str_split_append:
  "c \<notin> set a \<Longrightarrow> str_split c (a @ c # b) = a # str_split c b"
  by (induction a) auto

lemma indepth_options_split:
  assumes "CHR '' '' \<notin> set interface"
  shows "str_split CHR '' '' (''-e '' @ interface @ '' '' @ options)
           = ''-e'' # interface # str_split CHR '' '' options"
  using str_split_append [OF assms, of options] by simp

text \<open>
  Claim C5, as amended. For a link-local address (IPv4 or IPv6), an in-depth scan
  without an interface fails with \<open>TypeError\<close> before anything else happens: the
  world is unchanged, so no file is allocated and the engine is not invoked. With an
  interface whose name has no space, and a temporary file allocated, the engine is
  invoked with \<^verbatim>\<open>-e\<close> followed by the interface, then \<^verbatim>\<open>-6\<close> exactly when the
  address is an IPv6 address, then the fixed options, the output file and the address.
\<close>

theorem indepth_scan_of_link_local_address:
  assumes "is_link_local address"
  shows "indepth_host_scan address None w = (Inl TypeError, w)
       \<and> (\<forall>interface p w1. CHR '' '' \<notin> set interface \<and> mkstemp w = (Inr p, w1) \<longrightarrow>
             invocations (snd (indepth_host_scan address (Some interface) w))
               = invocations w
                 @ [[''nmap'', ''-e'', interface]
                      @ (if address_version address = 6 then [''-6''] else [])
                      @ [''-sS'', ''-A'', ''-T4'', ''-oX'', p, address_compressed address]])"
proof (intro conjI allI impI)
  show "indepth_host_scan address None w = (Inl TypeError, w)"
    using assms by (simp add: indepth_host_scan_def)
next
  fix interface p w1
  assume a: "CHR '' '' \<notin> set interface \<and> mkstemp w = (Inr p, w1)"
  then have m: "mkstemp w = (Inr p, w1)" and i: "CHR '' '' \<notin> set interface"
    by simp_all
  show "invocations (snd (indepth_host_scan address (Some interface) w))
               = invocations w
                 @ [[''nmap'', ''-e'', interface]
                      @ (if address_version address = 6 then [''-6''] else [])
                      @ [''-sS'', ''-A'', ''-T4'', ''-oX'', p, address_compressed address]]"
  proof (cases "address_version address = 6")
    case True
    with assms show ?thesis
      using run_scan_invocation [OF m, of SERVICE_DISCOVERY
          "''-e '' @ interface @ '' '' @ ''-6 -sS -A -T4''" "Some (Address address)"]
        indepth_options_split [OF i, of "''-6 -sS -A -T4''"]
      by (simp add: indepth_host_scan_def nmap_cmd_def)
  next
    case False
    with assms show ?thesis
      using run_scan_invocation [OF m, of SERVICE_DISCOVERY
          "''-e '' @ interface @ '' '' @ ''-sS -A -T4''" "Some (Address address)"]
        indepth_options_split [OF i, of "''-sS -A -T4''"]
      by (simp add: indepth_host_scan_def nmap_cmd_def)
  qed
qed

lemma addr_fe80_1_link_local: "is_link_local addr_fe80_1"
  by (simp add: addr_fe80_1_def)

theorem indepth_scan_of_link_local_address_witness:
  "indepth_host_scan addr_fe80_1 None world_ok = (Inl TypeError, world_ok)
   \<and> invocations (snd (indepth_host_scan addr_fe80_1 (Some ''lan0'') world_ok))
       = [[''nmap'', ''-e'', ''lan0'', ''-6'', ''-sS'', ''-A'', ''-T4'', ''-oX'', ''/tmp/tmpa'',
           ''fe80::1'']]"
proof -
  have v: "address_version addr_fe80_1 = 6"
    by (simp add: addr_fe80_1_def)
  have c: "address_compressed addr_fe80_1 = ''fe80::1''"
    by (simp add: addr_fe80_1_def ipv6_string_def hextets_def compress_hextets_def digit_char_def)
  have i: "invocations world_ok = []"
    by (simp add: world_ok_def)
  have s: "CHR '' '' \<notin> set ''lan0'' \<and> mkstemp world_ok = (Inr ''/tmp/tmpa'', snd (mkstemp world_ok))"
    using world_ok_mkstemp by simp
  note t = indepth_scan_of_link_local_address [OF addr_fe80_1_link_local, of world_ok]
  from t have 1: "indepth_host_scan addr_fe80_1 None world_ok = (Inl TypeError, world_ok)"
    by blast
  from t s have 2: "invocations (snd (indepth_host_scan addr_fe80_1 (Some ''lan0'') world_ok))
      = invocations world_ok
        @ [[''nmap'', ''-e'', ''lan0'']
             @ (if address_version addr_fe80_1 = 6 then [''-6''] else [])
             @ [''-sS'', ''-A'', ''-T4'', ''-oX'', ''/tmp/tmpa'', address_compressed addr_fe80_1]]"
    by blast
  from 1 2 show ?thesis
    by (simp add: v c i)
qed

text \<open>
  Claim C5 as stated fails twice. \<^verbatim>\<open>169.254.1.1\<close> is link-local, an interface is
  supplied, and the command has no \<^verbatim>\<open>-6\<close>. \<^verbatim>\<open>fe80::1\<close> without an interface
  fails with \<open>TypeError\<close>, raised by the string concatenation of line 150; the
  runner has no error of its own for this case.
\<close>

theorem indepth_scan_of_ipv4_link_local_address:
  "is_link_local addr_169_254_1_1
   \<and> invocations (snd (indepth_host_scan addr_169_254_1_1 (Some ''lan0'') world_ok))
       = [[''nmap'', ''-e'', ''lan0'', ''-sS'', ''-A'', ''-T4'', ''-oX'', ''/tmp/tmpa'',
           ''169.254.1.1'']]
   \<and> ''-6'' \<notin> set [''nmap'', ''-e'', ''lan0'', ''-sS'', ''-A'', ''-T4'', ''-oX'', ''/tmp/tmpa'',
                    ''169.254.1.1'']
   \<and> is_link_local addr_fe80_1
   \<and> fst (indepth_host_scan addr_fe80_1 None world_ok) = Inl TypeError
   \<and> invocations (snd (indepth_host_scan addr_fe80_1 None world_ok)) = []"
  by (simp add: eval_defs world_ok_def addr_169_254_1_1_def addr_fe80_1_def)

text \<open>
  The frontier. Each discovery loop appends, for every scan it runs and in the order of
  the scan's host list, one entry per host: tagged with the interface in phase 1,
  untagged in phase 2. Each of its scans is queued, so the queue names the scans.
\<close>

lemma link_local_discovery_frontier:
  "link_local_discovery interfaces d w = (Inr d', w') \<Longrightarrow>
     \<exists>scans. queue w' = queue w @ scans \<and> length scans = length interfaces
       \<and> d' = d @ concat (map2 (\<lambda>interface scan.
                               map (\<lambda>found_ip. (found_ip, Some interface)) (full_ip_list scan))
                          interfaces scans)"
proof (induction interfaces arbitrary: d w)
  case Nil
  then show ?case by simp
next
  case (Cons interface rest)
  from Cons.prems obtain scan w1 where s: "v6_link_local_scan interface w = (Inr scan, w1)"
    by (auto split: prod.splits sum.splits)
  obtain hs w2 where p: "process_and_send_scan scan (Some interface) w1 = (hs, w2)"
    by (cases "process_and_send_scan scan (Some interface) w1")
  note pf = process_and_send_scan_facts [OF p]
  from s have q: "queue w1 = queue w"
    by (auto simp: v6_link_local_scan_def dest: run_scan_Inr(2))
  from Cons.prems s p have "link_local_discovery rest (d @ hs) w2 = (Inr d', w')"
    by simp
  from Cons.IH [OF this] obtain scans where r: "queue w' = queue w2 @ scans"
    "length scans = length rest"
    "d' = (d @ hs) @ concat (map2 (\<lambda>interface scan.
                               map (\<lambda>found_ip. (found_ip, Some interface)) (full_ip_list scan))
                          rest scans)"
    by blast
  show ?case
    by (rule exI [of _ "scan\<lparr>is_signed := True\<rparr> # scans"]) (simp add: r pf q)
qed

lemma network_discover_frontier:
  "network_discover networks d w = (Inr d', w') \<Longrightarrow>
     \<exists>scans. queue w' = queue w @ scans \<and> length scans = length networks
       \<and> d' = d @ concat (map (\<lambda>scan. map (\<lambda>found_ip. (found_ip, None)) (full_ip_list scan))
                          scans)"
proof (induction networks arbitrary: d w)
  case Nil
  then show ?case by simp
next
  case (Cons network rest)
  define step where "step = (if network_version network = 4
            then arp_host_discovery_scan network w
            else nd_host_discovery_scan network w)"
  have "\<exists>st options. step = run_scan st options (Some (Network network)) w"
    unfolding step_def arp_host_discovery_scan_def nd_host_discovery_scan_def
    by (cases "network_version network = 4") auto
  then obtain st options where st: "step = run_scan st options (Some (Network network)) w"
    by blast
  from Cons.prems obtain scan w1 where s: "step = (Inr scan, w1)"
    by (auto simp: step_def split: prod.splits sum.splits)
  obtain hs w2 where p: "process_and_send_scan scan None w1 = (hs, w2)"
    by (cases "process_and_send_scan scan None w1")
  note pf = process_and_send_scan_facts [OF p]
  from s st have q: "queue w1 = queue w"
    by (auto dest: run_scan_Inr(2))
  from Cons.prems s p have "network_discover rest (d @ hs) w2 = (Inr d', w')"
    by (simp add: step_def)
  from Cons.IH [OF this] obtain scans where r: "queue w' = queue w2 @ scans"
    "length scans = length rest"
    "d' = (d @ hs) @ concat (map (\<lambda>scan. map (\<lambda>found_ip. (found_ip, None)) (full_ip_list scan))
                          scans)"
    by blast
  show ?case
    by (rule exI [of _ "scan\<lparr>is_signed := True\<rparr> # scans"]) (simp add: r pf q)
qed

lemma last_nmap_cmd: "last (nmap_cmd options p (Some t)) = compressed t"
  by (simp add: nmap_cmd_def)

lemma indepth_host_scan_last_argument:
  assumes "indepth_host_scan address interface w = (Inr scan, w1)"
  shows "\<exists>cmd. invocations w1 = invocations w @ [cmd] \<and> last cmd = address_compressed address"
proof -
  from assms obtain options
    where "run_scan SERVICE_DISCOVERY options (Some (Address address)) w = (Inr scan, w1)"
    by (auto simp: indepth_host_scan_def Let_def split: if_splits option.splits)
  from run_scan_Inr(1) [OF this] obtain p
    where "invocations w1 = invocations w @ [nmap_cmd options p (Some (Address address))]"
    by blast
  then show ?thesis
    by (simp add: last_nmap_cmd)
qed

lemma host_scanning_invocations:
  "host_scanning hosts w = (Inr u, w') \<Longrightarrow>
     \<exists>cmds. invocations w' = invocations w @ cmds
       \<and> map last cmds = map (\<lambda>host_tuple. address_compressed (fst host_tuple)) hosts"
proof (induction hosts arbitrary: w)
  case Nil
  then show ?case by simp
next
  case (Cons host_tuple rest)
  from Cons.prems obtain scan w1
    where s: "indepth_host_scan (fst host_tuple) (snd host_tuple) w = (Inr scan, w1)"
    by (auto split: prod.splits sum.splits)
  obtain hs w2 where p: "process_and_send_scan scan None w1 = (hs, w2)"
    by (cases "process_and_send_scan scan None w1")
  note pf = process_and_send_scan_facts [OF p]
  from indepth_host_scan_last_argument [OF s] obtain cmd
    where c: "invocations w1 = invocations w @ [cmd]" "last cmd = address_compressed (fst host_tuple)"
    by blast
  from Cons.prems s p have "host_scanning rest w2 = (Inr u, w')"
    by simp
  from Cons.IH [OF this] obtain cmds where r: "invocations w' = invocations w2 @ cmds"
    "map last cmds = map (\<lambda>host_tuple. address_compressed (fst host_tuple)) rest"
    by blast
  show ?case
    by (rule exI [of _ "cmd # cmds"]) (simp add: r pf c)
qed

lemma protocol_discovery_queue:
  "protocol_discovery networks w = (Inr u, w') \<Longrightarrow>
     \<exists>scans. queue w' = queue w @ scans \<and> length scans = length networks"
proof (induction networks arbitrary: w)
  case Nil
  then show ?case by simp
next
  case (Cons network rest)
  from Cons.prems obtain scan w1 where s: "protocol_scan network w = (Inr scan, w1)"
    by (auto split: prod.splits sum.splits)
  obtain hs w2 where p: "process_and_send_scan scan None w1 = (hs, w2)"
    by (cases "process_and_send_scan scan None w1")
  note pf = process_and_send_scan_facts [OF p]
  from s have q: "queue w1 = queue w"
    by (auto simp: protocol_scan_def Let_def dest: run_scan_Inr(2))
  from Cons.prems s p have "protocol_discovery rest w2 = (Inr u, w')"
    by simp
  from Cons.IH [OF this] obtain scans where r: "queue w' = queue w2 @ scans"
    "length scans = length rest"
    by blast
  show ?case
    by (rule exI [of _ "scan\<lparr>is_signed := True\<rparr> # scans"]) (simp add: r pf q)
qed

text \<open>
  Claim C6. When the first three phases complete, phase 4 is run on the list
  \<open>d2\<close> that phase 2 returned, and that list is the hosts of the phase-1 scans, each
  tagged with the interface of its scan, followed by the hosts of the phase-2 scans,
  untagged, in discovery order and with nothing removed; the scans of phase 3 are
  queued but contribute no entry. Phase 4, when it completes, has invoked the engine
  once per entry of the list, in order, on the address of the entry: an address that
  occurs twice is scanned twice.
\<close>

theorem frontier_is_phase_1_then_phase_2:
  assumes "link_local_discovery (scan_interfaces nmap_config) [] w = (Inr d1, w1)"
    and "network_discover (networks_to_scan nmap_config) d1 w1 = (Inr d2, w2)"
    and "protocol_discovery (networks_to_scan nmap_config) w2 = (Inr u, w3)"
  shows "run_network_scans nmap_config w = host_scanning d2 w3
       \<and> (\<exists>scans1 scans2 scans3.
             queue w1 = queue w @ scans1 \<and> length scans1 = length (scan_interfaces nmap_config)
           \<and> queue w2 = queue w1 @ scans2 \<and> length scans2 = length (networks_to_scan nmap_config)
           \<and> queue w3 = queue w2 @ scans3 \<and> length scans3 = length (networks_to_scan nmap_config)
           \<and> d2 = concat (map2 (\<lambda>interface scan.
                                  map (\<lambda>found_ip. (found_ip, Some interface)) (full_ip_list scan))
                             (scan_interfaces nmap_config) scans1)
                  @ concat (map (\<lambda>scan. map (\<lambda>found_ip. (found_ip, None)) (full_ip_list scan))
                              scans2))
       \<and> (\<forall>w4. host_scanning d2 w3 = (Inr (), w4) \<longrightarrow>
             (\<exists>cmds. invocations w4 = invocations w3 @ cmds
                \<and> map last cmds = map (\<lambda>host_tuple. address_compressed (fst host_tuple)) d2))"
proof (intro conjI allI impI)
  show "run_network_scans nmap_config w = host_scanning d2 w3"
    using assms by (simp add: run_network_scans_def)
next
  from link_local_discovery_frontier [OF assms(1)] obtain scans1
    where 1: "queue w1 = queue w @ scans1" "length scans1 = length (scan_interfaces nmap_config)"
      "d1 = concat (map2 (\<lambda>interface scan.
                            map (\<lambda>found_ip. (found_ip, Some interface)) (full_ip_list scan))
                       (scan_interfaces nmap_config) scans1)"
    by auto
  from network_discover_frontier [OF assms(2)] obtain scans2
    where 2: "queue w2 = queue w1 @ scans2" "length scans2 = length (networks_to_scan nmap_config)"
      "d2 = d1 @ concat (map (\<lambda>scan. map (\<lambda>found_ip. (found_ip, None)) (full_ip_list scan))
                          scans2)"
    by blast
  from protocol_discovery_queue [OF assms(3)] obtain scans3
    where 3: "queue w3 = queue w2 @ scans3" "length scans3 = length (networks_to_scan nmap_config)"
    by blast
  from 1 2 3 show "\<exists>scans1 scans2 scans3.
             queue w1 = queue w @ scans1 \<and> length scans1 = length (scan_interfaces nmap_config)
           \<and> queue w2 = queue w1 @ scans2 \<and> length scans2 = length (networks_to_scan nmap_config)
           \<and> queue w3 = queue w2 @ scans3 \<and> length scans3 = length (networks_to_scan nmap_config)
           \<and> d2 = concat (map2 (\<lambda>interface scan.
                                  map (\<lambda>found_ip. (found_ip, Some interface)) (full_ip_list scan))
                             (scan_interfaces nmap_config) scans1)
                  @ concat (map (\<lambda>scan. map (\<lambda>found_ip. (found_ip, None)) (full_ip_list scan))
                              scans2)"
    by blast
next
  fix w4
  assume "host_scanning d2 w3 = (Inr (), w4)"
  from host_scanning_invocations [OF this]
  show "\<exists>cmds. invocations w4 = invocations w3 @ cmds
          \<and> map last cmds = map (\<lambda>host_tuple. address_compressed (fst host_tuple)) d2" .
qed

lemmas example_defs = sweep_config_A_def world_A_def net_10_def addr_fe80_1_def addr_10_0_0_5_def

lemma world_A_phase_1:
  "link_local_discovery (scan_interfaces sweep_config_A) [] world_A
     = (Inr [(addr_fe80_1, Some ''lan0'')], world_A1)"
  by (simp add: world_A1_def eval_defs example_defs)

lemma world_A_phase_2:
  "network_discover (networks_to_scan sweep_config_A) [(addr_fe80_1, Some ''lan0'')] world_A1
     = (Inr [(addr_fe80_1, Some ''lan0''), (addr_10_0_0_5, None), (addr_10_0_0_5, None)], world_A2)"
  by (simp add: world_A2_def world_A1_def eval_defs example_defs)

lemma world_A_phase_3:
  "protocol_discovery (networks_to_scan sweep_config_A) world_A2 = (Inr (), world_A3)"
  by (simp add: world_A3_def world_A2_def world_A1_def eval_defs example_defs)

theorem frontier_is_phase_1_then_phase_2_witness:
  "run_network_scans sweep_config_A world_A
     = host_scanning [(addr_fe80_1, Some ''lan0''), (addr_10_0_0_5, None), (addr_10_0_0_5, None)]
         world_A3
   \<and> fst (run_network_scans sweep_config_A world_A) = Inr ()
   \<and> map last (invocations (snd (run_network_scans sweep_config_A world_A)))
       = [''/tmp/tmpa'', ''10.0.0.0/24'', ''10.0.0.0/24'', ''10.0.0.0/24'', ''10.0.0.0/24'',
          ''fe80::1'', ''10.0.0.5'', ''10.0.0.5'']"
proof -
  from frontier_is_phase_1_then_phase_2 [OF world_A_phase_1 world_A_phase_2 world_A_phase_3]
  have "run_network_scans sweep_config_A world_A
     = host_scanning [(addr_fe80_1, Some ''lan0''), (addr_10_0_0_5, None), (addr_10_0_0_5, None)]
         world_A3"
    by blast
  moreover have "fst (run_network_scans sweep_config_A world_A) = Inr ()"
    by (simp add: eval_defs example_defs)
  moreover have "map last (invocations (snd (run_network_scans sweep_config_A world_A)))
       = [''/tmp/tmpa'', ''10.0.0.0/24'', ''10.0.0.0/24'', ''10.0.0.0/24'', ''10.0.0.0/24'',
          ''fe80::1'', ''10.0.0.5'', ''10.0.0.5'']"
    by (simp add: eval_defs example_defs)
  ultimately show ?thesis by blast
qed

text \<open>
  The meaning of \<^verbatim>\<open>'lan' in interface.name\<close>: the name has \<^verbatim>\<open>lan\<close> as a
  contiguous part, anywhere.
\<close>

lemma startswith_iff: "startswith p s \<longleftrightarrow> (\<exists>b. s = p @ b)"
  by (induction p s rule: startswith.induct) auto

lemma str_contains_iff: "str_contains p s \<longleftrightarrow> (\<exists>a b. s = a @ p @ b)"
proof (induction s)
  case Nil
  then show ?case by simp
next
  case (Cons x xs)
  have "(\<exists>a b. x # xs = a @ p @ b) \<longleftrightarrow> (\<exists>b. x # xs = p @ b) \<or> (\<exists>a b. xs = a @ p @ b)"
  proof
    assume "\<exists>a b. x # xs = a @ p @ b"
    then obtain a b where ab: "x # xs = a @ p @ b" by blast
    show "(\<exists>b. x # xs = p @ b) \<or> (\<exists>a b. xs = a @ p @ b)"
    proof (cases a)
      case Nil
      with ab show ?thesis by auto
    next
      case (Cons y ys)
      with ab have "xs = ys @ p @ b" by simp
      then show ?thesis by blast
    qed
  next
    assume "(\<exists>b. x # xs = p @ b) \<or> (\<exists>a b. xs = a @ p @ b)"
    then show "\<exists>a b. x # xs = a @ p @ b"
    proof
      assume "\<exists>b. x # xs = p @ b"
      then obtain b where "x # xs = [] @ p @ b" by auto
      then show ?thesis by blast
    next
      assume "\<exists>a b. xs = a @ p @ b"
      then obtain a b where "x # xs = (x # a) @ p @ b" by auto
      then show ?thesis by blast
    qed
  qed
  with Cons show ?case
    by (simp add: startswith_iff)
qed

lemma select_interfaces_result:
  "scan_interfaces (select_interfaces f interfaces self)
     = scan_interfaces self
       @ map name (filter (\<lambda>interface. str_contains ''lan'' (name interface)) interfaces)
   \<and> networks_to_scan (select_interfaces f interfaces self)
     = networks_to_scan self
       @ concat (map (\<lambda>interface. map f (current_ip_addresses interface))
                   (filter (\<lambda>interface. str_contains ''lan'' (name interface)) interfaces))
   \<and> blacklisted_hosts (select_interfaces f interfaces self) = blacklisted_hosts self"
  by (induction interfaces arbitrary: self) simp_all

text \<open>
  Claim C10. The configuration selects exactly the interfaces whose name contains
  \<^verbatim>\<open>lan\<close> somewhere: \<^verbatim>\<open>scan_interfaces\<close> is their names, in the order reported,
  \<^verbatim>\<open>networks_to_scan\<close> is the networks of all their addresses, in order, and the
  blacklist is empty. The example selects \<^verbatim>\<open>wlan0\<close> and \<^verbatim>\<open>lan1\<close> and leaves
  \<^verbatim>\<open>eth0\<close> out.
\<close>

theorem interfaces_selected_by_lan_substring:
  "scan_interfaces (NmapConfig_init f interfaces)
     = map name (filter (\<lambda>interface. \<exists>a b. name interface = a @ ''lan'' @ b) interfaces)
   \<and> networks_to_scan (NmapConfig_init f interfaces)
     = concat (map (\<lambda>interface. map f (current_ip_addresses interface))
                 (filter (\<lambda>interface. \<exists>a b. name interface = a @ ''lan'' @ b) interfaces))
   \<and> blacklisted_hosts (NmapConfig_init f interfaces) = []"
  using select_interfaces_result [of f interfaces
      "\<lparr>scan_interfaces = [], networks_to_scan = [], blacklisted_hosts = []\<rparr>"]
  by (simp add: NmapConfig_init_def str_contains_iff)

theorem interfaces_selected_by_lan_substring_witness:
  "scan_interfaces (NmapConfig_init (\<lambda>network. network)
      [\<lparr>name = ''eth0'', current_ip_addresses = [net_2001_db8]\<rparr>,
       \<lparr>name = ''wlan0'', current_ip_addresses = [net_10, net_2001_db8]\<rparr>,
       \<lparr>name = ''lan1'', current_ip_addresses = []\<rparr>]) = [''wlan0'', ''lan1'']
   \<and> networks_to_scan (NmapConfig_init (\<lambda>network. network)
      [\<lparr>name = ''eth0'', current_ip_addresses = [net_2001_db8]\<rparr>,
       \<lparr>name = ''wlan0'', current_ip_addresses = [net_10, net_2001_db8]\<rparr>,
       \<lparr>name = ''lan1'', current_ip_addresses = []\<rparr>]) = [net_10, net_2001_db8]"
proof -
  have e: "\<not> (\<exists>a b. ''eth0'' = a @ ''lan'' @ b)"
    using str_contains_iff [of "''lan''" "''eth0''"] by simp
  have w: "\<exists>a b. ''wlan0'' = a @ ''lan'' @ b"
    using str_contains_iff [of "''lan''" "''wlan0''"] by simp
  have l: "\<exists>a b. ''lan1'' = a @ ''lan'' @ b"
    using str_contains_iff [of "''lan''" "''lan1''"] by simp
  from interfaces_selected_by_lan_substring [of "\<lambda>network. network"
      "[\<lparr>name = ''eth0'', current_ip_addresses = [net_2001_db8]\<rparr>,
        \<lparr>name = ''wlan0'', current_ip_addresses = [net_10, net_2001_db8]\<rparr>,
        \<lparr>name = ''lan1'', current_ip_addresses = []\<rparr>]"] e w l
  show ?thesis
    by simp
qed

end
